theory Spec2Isabelle
  imports Complex_Main "HOL-Library.Sublist" "HOL-Library.Log_Nat"
begin

section \<open>Strings and numbers as the script uses them\<close>

text \<open>
  Python's \<^verbatim>\<open>needle in haystack\<close> on two strings: does the needle occur as a
  contiguous run of characters of the haystack.
\<close>

fun str_in :: "string \<Rightarrow> string \<Rightarrow> bool" where
  "str_in needle [] = (needle = [])"
| "str_in needle (c # cs) = (prefix needle (c # cs) \<or> str_in needle cs)"

text \<open>
  The needle occurs in the text at index \<open>i\<close>, and the number of indices at which it
  occurs (overlapping occurrences counted, as a reader searching the text would).
\<close>

definition occurs_at :: "string \<Rightarrow> nat \<Rightarrow> string \<Rightarrow> bool" where
  "occurs_at needle i s = (i + length needle \<le> length s \<and> take (length needle) (drop i s) = needle)"

definition count_occ :: "string \<Rightarrow> string \<Rightarrow> nat" where
  "count_occ needle s = length (filter (\<lambda>i. occurs_at needle i s) [0..<Suc (length s)])"

text \<open>Python's \<^verbatim>\<open>str\<close> of an integer: decimal digits, a minus sign when negative.\<close>

definition digit :: "nat \<Rightarrow> char" where
  "digit d = ''0123456789'' ! (d mod 10)"

function str_nat :: "nat \<Rightarrow> string" where
  "str_nat n = (if n < 10 then [digit n] else str_nat (n div 10) @ [digit (n mod 10)])"
  by pat_completeness auto
termination
  by (relation "measure id") auto

declare str_nat.simps [simp del]

definition str_int :: "int \<Rightarrow> string" where
  "str_int i = (if i < 0 then ''-'' @ str_nat (nat (- i)) else str_nat (nat i))"

text \<open>
  A value handed to an f-string is an \<^verbatim>\<open>int\<close> or a \<^verbatim>\<open>float\<close>. A finite float is
  modelled by the rational number it denotes (every finite double is one); comparisons
  of a float with an integer are exact in Python, so they are comparisons of rationals.
  The other floats are negative zero, the two infinities and the NaNs.
\<close>

datatype pyvalue = PyInt int | PyFloat rat | PyNegZero | PyInf | PyNegInf | PyNaN

text \<open>
  \<^verbatim>\<open>str(x)\<close> of a float is the shortest decimal text that reads back as \<open>x\<close>,
  always with a decimal point. For an integral float below \<open>10^16\<close> in magnitude that
  is the integer's digits followed by \<^verbatim>\<open>.0\<close>. The shortest digits of any other float
  depend on the binary rounding of doubles, which is the interpreter's and not the
  script's: they are the parameter \<open>shortest\<close>.
\<close>

definition float_str :: "(rat \<Rightarrow> string) \<Rightarrow> rat \<Rightarrow> string" where
  "float_str shortest x =
     (if of_int \<lfloor>x\<rfloor> = x \<and> \<bar>x\<bar> < 10 ^ 16 then str_int \<lfloor>x\<rfloor> @ ''.0'' else shortest x)"

text \<open>The replacement field \<^verbatim>\<open>{value}\<close> of an f-string: \<^verbatim>\<open>format(value, '')\<close>.\<close>

definition py_format :: "(rat \<Rightarrow> string) \<Rightarrow> pyvalue \<Rightarrow> string" where
  "py_format shortest v =
     (case v of
        PyInt i \<Rightarrow> str_int i
      | PyFloat x \<Rightarrow> float_str shortest x
      | PyNegZero \<Rightarrow> ''-0.0''
      | PyInf \<Rightarrow> ''inf''
      | PyNegInf \<Rightarrow> ''-inf''
      | PyNaN \<Rightarrow> ''nan'')"

text \<open>
  Reading a text back, as Python's \<^verbatim>\<open>int(text)\<close> and \<^verbatim>\<open>float(text)\<close> do: the value of
  a run of decimal digits, of an integer text (an optional minus sign and digits), and
  of a decimal text (an optional minus sign, digits, an optional point and digits, an
  optional exponent).
\<close>

definition digit_val :: "char \<Rightarrow> nat option" where
  "digit_val c = map_of (zip ''0123456789'' [0..<10]) c"

fun digits_val_rev :: "string \<Rightarrow> nat option" where
  "digits_val_rev [] = Some 0"
| "digits_val_rev (c # cs) =
     (case digit_val c of
        None \<Rightarrow> None
      | Some d \<Rightarrow> (case digits_val_rev cs of None \<Rightarrow> None | Some n \<Rightarrow> Some (d + 10 * n)))"

definition nat_of_text :: "string \<Rightarrow> nat option" where
  "nat_of_text s = (if s = [] then None else digits_val_rev (rev s))"

definition int_of_text :: "string \<Rightarrow> int option" where
  "int_of_text s =
     (case s of
        [] \<Rightarrow> None
      | c # cs \<Rightarrow>
          if c = CHR ''-'' then map_option (\<lambda>n. - int n) (nat_of_text cs)
          else map_option int (nat_of_text s))"

definition split_at :: "char \<Rightarrow> string \<Rightarrow> string \<times> string option" where
  "split_at c s =
     (takeWhile (\<lambda>x. x \<noteq> c) s,
      case dropWhile (\<lambda>x. x \<noteq> c) s of [] \<Rightarrow> None | x # r \<Rightarrow> Some r)"

definition unsigned_decimal :: "string \<Rightarrow> rat option" where
  "unsigned_decimal s =
     (case split_at CHR ''.'' s of
        (ip, None) \<Rightarrow> map_option of_nat (nat_of_text ip)
      | (ip, Some fp) \<Rightarrow>
          (case nat_of_text ip of
             None \<Rightarrow> None
           | Some a \<Rightarrow>
               (case nat_of_text fp of
                  None \<Rightarrow> None
                | Some b \<Rightarrow> Some (of_nat a + of_nat b / 10 ^ length fp))))"

definition exponent_of_text :: "string \<Rightarrow> int option" where
  "exponent_of_text s =
     (case s of
        [] \<Rightarrow> None
      | c # cs \<Rightarrow> if c = CHR ''+'' then map_option int (nat_of_text cs) else int_of_text s)"

definition unsigned_float :: "string \<Rightarrow> rat option" where
  "unsigned_float s =
     (case split_at CHR ''e'' s of
        (m, None) \<Rightarrow> unsigned_decimal m
      | (m, Some e) \<Rightarrow>
          (case unsigned_decimal m of
             None \<Rightarrow> None
           | Some q \<Rightarrow>
               (case exponent_of_text e of None \<Rightarrow> None | Some k \<Rightarrow> Some (q * 10 powi k))))"

definition decimal_of_text :: "string \<Rightarrow> rat option" where
  "decimal_of_text s =
     (case s of
        [] \<Rightarrow> None
      | c # cs \<Rightarrow>
          if c = CHR ''-'' then map_option uminus (unsigned_float cs) else unsigned_float s)"

text \<open>
  The double nearest to a rational, ties to the even mantissa, as \<^verbatim>\<open>float(text)\<close>
  rounds the number a text denotes: \<open>bexp a\<close> is the \<open>e\<close> with \<open>2^e \<le> a < 2^(e+1)\<close>,
  the mantissa has 53 bits, and below \<open>2^-1022\<close> the spacing stays \<open>2^-1074\<close>. A
  finite double is a rational below \<open>2^1024\<close> in magnitude that rounds to itself.
\<close>

definition bexp :: "rat \<Rightarrow> int" where
  "bexp a = (if 1 \<le> a then bitlen \<lfloor>a\<rfloor> - 1 else - bitlen (\<lceil>1 / a\<rceil> - 1))"

definition round_half_even :: "rat \<Rightarrow> int" where
  "round_half_even x =
     (let f = \<lfloor>x\<rfloor>; d = x - of_int f in
      if d < 1 / 2 then f else if 1 / 2 < d then f + 1 else if even f then f else f + 1)"

definition round_to_double :: "rat \<Rightarrow> rat" where
  "round_to_double q =
     (if q = 0 then 0
      else let a = \<bar>q\<bar>;
               p = max (bexp a - 52) (- 1074);
               m = round_half_even (a / 2 powi p)
           in sgn q * of_int m * 2 powi p)"

definition is_double :: "rat \<Rightarrow> bool" where
  "is_double x = (round_to_double x = x \<and> \<bar>x\<bar> < 2 ^ 1024)"

text \<open>
  The text reads back as the value: as the same integer by \<^verbatim>\<open>int\<close>, as the same float
  by \<^verbatim>\<open>float\<close>. Nothing of the value was rounded away in writing it.
\<close>

fun reads_back :: "string \<Rightarrow> pyvalue \<Rightarrow> bool" where
  "reads_back t (PyInt i) = (int_of_text t = Some i)"
| "reads_back t (PyFloat x) =
     (case decimal_of_text t of None \<Rightarrow> False | Some q \<Rightarrow> round_to_double q = x)"
| "reads_back t PyNegZero = (t = ''-0.0'')"
| "reads_back t PyInf = (t = ''inf'')"
| "reads_back t PyNegInf = (t = ''-inf'')"
| "reads_back t PyNaN = (t = ''nan'')"

text \<open>A value the interpreter can hold: a finite float is a double.\<close>

fun is_pyvalue :: "pyvalue \<Rightarrow> bool" where
  "is_pyvalue (PyFloat x) = is_double x"
| "is_pyvalue v = True"

text \<open>
  The replacement field \<^verbatim>\<open>{x:.2f}\<close>: the value rounded to two decimals, ties to the
  even neighbour, with the sign of \<open>x\<close> kept.
\<close>

definition fmt_2f :: "rat \<Rightarrow> string" where
  "fmt_2f x =
     (let n = nat (round_half_even (\<bar>x\<bar> * 100)) in
      (if x < 0 then ''-'' else []) @ str_nat (n div 100) @ ''.'' @
      [digit (n div 10), digit n])"

section \<open>The completion service and the effects of the script\<close>

text \<open>
  An exception raised inside the \<^verbatim>\<open>try\<close> block of the dispatcher: its class name, a
  structured status code when the library attaches one, and the text that
  \<^verbatim>\<open>str(e)\<close> gives.
\<close>

datatype exn = Exn (exn_class: string) (exn_code: "int option") (exn_str: string)

text \<open>One turn of a conversation: the role and the text.\<close>

type_synonym history = "(string \<times> string) list"

text \<open>
  The completion service is outside the repository. One exchange is
  \<^verbatim>\<open>model.start_chat(history=h).send_message(prompt).text\<close>: from the service's own
  state, the history the session was opened with and the prompt, it gives either the
  exception raised or the response text, and the service's next state.
\<close>

type_synonym 's service = "'s \<Rightarrow> history \<Rightarrow> string \<Rightarrow> (exn + string) \<times> 's"

text \<open>
  What the script does to the outside, in order: an exchange with the service (the
  history it opened the session with, and the prompt), console output, a blocking
  \<^verbatim>\<open>time.sleep\<close>, and the page elements.
\<close>

datatype event =
    Call history string
  | Print string
  | Sleep nat
  | Title string
  | Write string
  | Warning string
  | Success string
  | Subheader string
  | TextInput string
  | Markdown string

record 's world =
  svc_state :: 's
  trace :: "event list"

definition emit :: "event \<Rightarrow> 's world \<Rightarrow> 's world" where
  "emit ev w = w\<lparr>trace := trace w @ [ev]\<rparr>"

fun calls :: "event list \<Rightarrow> (history \<times> string) list" where
  "calls [] = []"
| "calls (Call h p # es) = (h, p) # calls es"
| "calls (ev # es) = calls es"

fun sleeps :: "event list \<Rightarrow> nat list" where
  "sleeps [] = []"
| "sleeps (Sleep d # es) = d # sleeps es"
| "sleeps (ev # es) = sleeps es"

section \<open>The throttled request dispatcher\<close>

text \<open>
  \<^verbatim>\<open>send_request_with_throttling(prompt)\<close>, lines 30 to 50. The retry of line 48
  is a call of the function by itself from inside the \<^verbatim>\<open>except\<close> block, so every retry
  is one more activation on the interpreter's call stack, and the interpreter bounds
  the stack (the recursion limit, 1000 by default). The first argument \<open>room\<close> is
  the number of activations of the dispatcher the stack still has room for. With none
  left the \<^verbatim>\<open>try\<close> block raises \<^verbatim>\<open>RecursionError\<close> before any request goes out; its
  text has no marker, so line 50 raises it again, and it passes through every caller,
  which is in its handler and not in its \<^verbatim>\<open>try\<close>.
\<close>

definition recursion_error :: exn where
  "recursion_error = Exn ''RecursionError'' None ''maximum recursion depth exceeded''"

fun send_request_with_throttling ::
  "nat \<Rightarrow> 's service \<Rightarrow> string \<Rightarrow> 's world \<Rightarrow> (exn + string) \<times> 's world" where
  "send_request_with_throttling 0 svc prompt w = (Inl recursion_error, w)"
| "send_request_with_throttling (Suc room) svc prompt w =
     (case svc (svc_state w) [] prompt of
        (Inr text, s') \<Rightarrow>
          (Inr text, emit (Call [] prompt) (w\<lparr>svc_state := s'\<rparr>))
      | (Inl e, s') \<Rightarrow>
          (let w1 = emit (Call [] prompt) (w\<lparr>svc_state := s'\<rparr>) in
           if str_in ''RATE_LIMIT_EXCEEDED'' (exn_str e) then
             send_request_with_throttling room svc prompt
               (emit (Sleep 60)
                 (emit (Print ''Waiting for 1 minute before retrying...'')
                   (emit (Print (''Rate limit exceeded: '' @ exn_str e)) w1)))
           else (Inl e, w1)))"

text \<open>The test of line 44, as a predicate on the failure.\<close>

definition is_rate_limit :: "exn \<Rightarrow> bool" where
  "is_rate_limit e = str_in ''RATE_LIMIT_EXCEEDED'' (exn_str e)"

text \<open>
  A service seen from one prompt sent again and again with empty history: its first
  \<open>n\<close> answers are rate-limit failures; the state it is in after \<open>n\<close> answers; and
  what the dispatcher does to the outside during those \<open>n\<close> failed attempts.
\<close>

fun rate_limited_times :: "'s service \<Rightarrow> string \<Rightarrow> nat \<Rightarrow> 's \<Rightarrow> bool" where
  "rate_limited_times svc prompt 0 s = True"
| "rate_limited_times svc prompt (Suc n) s =
     (case svc s [] prompt of
        (Inl e, s') \<Rightarrow> is_rate_limit e \<and> rate_limited_times svc prompt n s'
      | (Inr text, s') \<Rightarrow> False)"

fun state_after :: "'s service \<Rightarrow> string \<Rightarrow> nat \<Rightarrow> 's \<Rightarrow> 's" where
  "state_after svc prompt 0 s = s"
| "state_after svc prompt (Suc n) s = state_after svc prompt n (snd (svc s [] prompt))"

fun retry_trace :: "'s service \<Rightarrow> string \<Rightarrow> nat \<Rightarrow> 's \<Rightarrow> event list" where
  "retry_trace svc prompt 0 s = []"
| "retry_trace svc prompt (Suc n) s =
     (case svc s [] prompt of
        (Inl e, s') \<Rightarrow>
          [Call [] prompt, Print (''Rate limit exceeded: '' @ exn_str e),
           Print ''Waiting for 1 minute before retrying...'', Sleep 60]
          @ retry_trace svc prompt n s'
      | (Inr text, s') \<Rightarrow> [])"

text \<open>
  Test services. The state counts the calls answered so far. \<open>quota_stub n\<close> fails
  with a rate-limit error on its first \<open>n\<close> calls and answers afterwards;
  \<open>failing_stub e\<close> always raises \<open>e\<close>.
\<close>

definition quota_error :: exn where
  "quota_error = Exn ''ResourceExhausted'' (Some 429) ''429 RATE_LIMIT_EXCEEDED: quota exhausted''"

definition auth_error :: exn where
  "auth_error = Exn ''PermissionDenied'' (Some 403) ''403 API key not valid''"

definition mislabelled_error :: exn where
  "mislabelled_error = Exn ''Unauthenticated'' (Some 401) ''401 upstream said RATE_LIMIT_EXCEEDED''"

definition plain_quota_error :: exn where
  "plain_quota_error = Exn ''ResourceExhausted'' (Some 429) ''429 Resource has been exhausted''"

definition quota_stub :: "nat \<Rightarrow> nat service" where
  "quota_stub n s h prompt =
     (if s < n then (Inl quota_error, Suc s) else (Inr (''echo: '' @ prompt), Suc s))"

definition failing_stub :: "exn \<Rightarrow> nat service" where
  "failing_stub e s h prompt = (Inl e, Suc s)"

definition world0 :: "nat world" where
  "world0 = \<lparr>svc_state = 0, trace = []\<rparr>"

section \<open>The advisory prompt\<close>

text \<open>The f-string of line 54.\<close>

definition get_ai_solution_prompt :: "(rat \<Rightarrow> string) \<Rightarrow> string \<Rightarrow> pyvalue \<Rightarrow> string" where
  "get_ai_solution_prompt shortest metric_name v =
     ''The '' @ metric_name @ '' usage is '' @ py_format shortest v @
     ''%. Provide step-by-step recommendations on how to resolve high '' @ metric_name @
     '' usage.''"

text \<open>A stand-in for the interpreter's float formatting, for running examples.\<close>

definition stub_repr :: "rat \<Rightarrow> string" where
  "stub_repr x = ''?''"

text \<open>One more, right on the float 75.125: \<^verbatim>\<open>str(75.125)\<close> is \<^verbatim>\<open>75.125\<close>.\<close>

definition sample_repr :: "rat \<Rightarrow> string" where
  "sample_repr x = (if x = 601 / 8 then ''75.125'' else ''?'')"

text \<open>
  \<^verbatim>\<open>get_ai_solution(metric_name, value)\<close>, lines 53 to 57; \<open>room\<close> is the room the
  stack has when the dispatcher is entered from here.
\<close>

definition get_ai_solution ::
  "nat \<Rightarrow> (rat \<Rightarrow> string) \<Rightarrow> 's service \<Rightarrow> string \<Rightarrow> pyvalue \<Rightarrow> 's world \<Rightarrow>
   (exn + string) \<times> 's world" where
  "get_ai_solution room shortest svc metric_name v w =
     send_request_with_throttling room svc (get_ai_solution_prompt shortest metric_name v) w"

section \<open>The page script\<close>

definition THRESHOLD :: int where
  "THRESHOLD = 75"

text \<open>
  The counter snapshots of \<^verbatim>\<open>psutil.net_io_counters()\<close> and
  \<^verbatim>\<open>psutil.disk_io_counters()\<close>, as far as the script reads them.
\<close>

record net_io =
  bytes_sent :: int
  bytes_recv :: int

record disk_io =
  read_bytes :: int
  write_bytes :: int

text \<open>
  Lines 98 and 117. Python's \<^verbatim>\<open>/\<close> on two integers is the quotient rounded to the
  nearest double; the divisor is \<open>2^20\<close>, so the quotient of any difference below
  \<open>2^53\<close> bytes in magnitude is a double already and the rational quotient is the
  value computed.
\<close>

definition network_usage :: "net_io \<Rightarrow> net_io \<Rightarrow> rat" where
  "network_usage net_before net_after =
     of_int ((bytes_recv net_after + bytes_sent net_after)
             - (bytes_recv net_before + bytes_sent net_before)) / of_int (1024 * 1024)"

definition disk_io_usage :: "disk_io \<Rightarrow> disk_io \<Rightarrow> rat" where
  "disk_io_usage disk_before disk_after =
     of_int ((read_bytes disk_after + write_bytes disk_after)
             - (read_bytes disk_before + write_bytes disk_before)) / of_int (1024 * 1024)"

text \<open>
  What one run of the script reads from its surroundings: the two percentages, the
  counter snapshots before and after each one-second sleep, and the content of the
  text box.
\<close>

record readings =
  cpu_percent :: rat
  memory_percent :: rat
  net_before :: net_io
  net_after :: net_io
  disk_before :: disk_io
  disk_after :: disk_io
  user_question :: string

text \<open>
  The script is straight-line code: a statement runs only when the ones before it
  have returned. \<open>and_then\<close> continues after a part that returned and stops with the
  exception of one that raised.
\<close>

definition and_then ::
  "(exn + unit) \<times> 's world \<Rightarrow> ('s world \<Rightarrow> (exn + unit) \<times> 's world) \<Rightarrow>
   (exn + unit) \<times> 's world" where
  "and_then r f = (case r of (Inr u, w) \<Rightarrow> f w | (Inl e, w) \<Rightarrow> (Inl e, w))"

text \<open>
  Showing an advisory, lines 70 to 72 and their three copies: the answer of
  \<^verbatim>\<open>get_ai_solution\<close> is written under a heading.
\<close>

definition show_solution ::
  "string \<Rightarrow> (exn + string) \<times> 's world \<Rightarrow> (exn + unit) \<times> 's world" where
  "show_solution heading r =
     (case r of
        (Inr solution, w) \<Rightarrow> (Inr (), emit (Write solution) (emit (Write heading) w))
      | (Inl e, w) \<Rightarrow> (Inl e, w))"

text \<open>Lines 66 to 74.\<close>

definition cpu_section ::
  "nat \<Rightarrow> (rat \<Rightarrow> string) \<Rightarrow> 's service \<Rightarrow> rat \<Rightarrow> 's world \<Rightarrow> (exn + unit) \<times> 's world" where
  "cpu_section room shortest svc cpu_usage w =
     (let w1 = emit (Write (''CPU Usage: '' @ fmt_2f cpu_usage @ ''%'')) w in
      if of_int THRESHOLD < cpu_usage then
        show_solution ''### AI-generated Solution for CPU Usage:''
          (get_ai_solution room shortest svc ''CPU'' (PyFloat cpu_usage)
            (emit (Warning (''CPU usage is high! ('' @ fmt_2f cpu_usage @ ''%)'')) w1))
      else (Inr (), emit (Success ''CPU usage is within normal limits.'') w1))"

text \<open>Lines 79 to 87.\<close>

definition memory_section ::
  "nat \<Rightarrow> (rat \<Rightarrow> string) \<Rightarrow> 's service \<Rightarrow> rat \<Rightarrow> 's world \<Rightarrow> (exn + unit) \<times> 's world" where
  "memory_section room shortest svc memory_usage w =
     (let w1 = emit (Write (''Memory Usage: '' @ fmt_2f memory_usage @ ''%'')) w in
      if of_int THRESHOLD < memory_usage then
        show_solution ''### AI-generated Solution for Memory Usage:''
          (get_ai_solution room shortest svc ''Memory'' (PyFloat memory_usage)
            (emit (Warning (''Memory usage is high! ('' @ fmt_2f memory_usage @ ''%)'')) w1))
      else (Inr (), emit (Success ''Memory usage is within normal limits.'') w1))"

text \<open>Lines 93 to 106: the first snapshot, the sleep, the second snapshot, the check.\<close>

definition network_section ::
  "nat \<Rightarrow> (rat \<Rightarrow> string) \<Rightarrow> 's service \<Rightarrow> net_io \<Rightarrow> net_io \<Rightarrow> 's world \<Rightarrow>
   (exn + unit) \<times> 's world" where
  "network_section room shortest svc nb na w =
     (let usage = network_usage nb na;
          w1 = emit (Write (''Network Usage: '' @ fmt_2f usage @ '' MB/s'')) (emit (Sleep 1) w) in
      if of_int THRESHOLD < usage then
        show_solution ''### AI-generated Solution for Network Usage:''
          (get_ai_solution room shortest svc ''Network'' (PyFloat usage)
            (emit (Warning (''Network usage is high! ('' @ fmt_2f usage @ '' MB/s)'')) w1))
      else (Inr (), emit (Success ''Network usage is within normal limits.'') w1))"

text \<open>Lines 112 to 125.\<close>

definition disk_section ::
  "nat \<Rightarrow> (rat \<Rightarrow> string) \<Rightarrow> 's service \<Rightarrow> disk_io \<Rightarrow> disk_io \<Rightarrow> 's world \<Rightarrow>
   (exn + unit) \<times> 's world" where
  "disk_section room shortest svc db da w =
     (let usage = disk_io_usage db da;
          w1 = emit (Write (''Disk I/O Usage: '' @ fmt_2f usage @ '' MB/s'')) (emit (Sleep 1) w) in
      if of_int THRESHOLD < usage then
        show_solution ''### AI-generated Solution for Disk I/O Usage:''
          (get_ai_solution room shortest svc ''Disk I/O'' (PyFloat usage)
            (emit (Warning (''Disk I/O usage is high! ('' @ fmt_2f usage @ '' MB/s)'')) w1))
      else (Inr (), emit (Success ''Disk I/O usage is within normal limits.'') w1))"

text \<open>Lines 135 to 138: a string is true in Python when it is not empty.\<close>

definition chat_section ::
  "nat \<Rightarrow> 's service \<Rightarrow> string \<Rightarrow> 's world \<Rightarrow> (exn + unit) \<times> 's world" where
  "chat_section room svc question w =
     (if question \<noteq> [] then
        show_solution ''### AI's Answer:'' (send_request_with_throttling room svc question w)
      else (Inr (), w))"

text \<open>Lines 60 to 125: the title and the four metric rows.\<close>

definition metric_rows ::
  "nat \<Rightarrow> (rat \<Rightarrow> string) \<Rightarrow> 's service \<Rightarrow> readings \<Rightarrow> 's world \<Rightarrow> (exn + unit) \<times> 's world" where
  "metric_rows room shortest svc m w =
     and_then (cpu_section room shortest svc (cpu_percent m)
                 (emit (Title ''POC- System Metrics Monitoring'') w)) (\<lambda>w.
     and_then (memory_section room shortest svc (memory_percent m) (emit (Write ''---'') w)) (\<lambda>w.
     and_then (network_section room shortest svc (net_before m) (net_after m)
                 (emit (Write ''---'') w)) (\<lambda>w.
     disk_section room shortest svc (disk_before m) (disk_after m) (emit (Write ''---'') w))))"

text \<open>The style sheet of lines 141 to 160.\<close>

definition fade_in_css :: string where
  "fade_in_css =
     [CHR 0x0A] @
     ''    <style>'' @ [CHR 0x0A] @
     ''        /* Fade-in effect for the text box on page load */'' @ [CHR 0x0A] @
     ''        .stTextInput input {'' @ [CHR 0x0A] @
     ''            opacity: 0;'' @ [CHR 0x0A] @
     ''            animation: fadeIn 2s forwards;'' @ [CHR 0x0A] @
     ''        }'' @ [CHR 0x0A] @
     [CHR 0x0A] @
     ''        /* Define the fade-in animation */'' @ [CHR 0x0A] @
     ''        @keyframes fadeIn {'' @ [CHR 0x0A] @
     ''            0% { opacity: 0; }'' @ [CHR 0x0A] @
     ''            100% { opacity: 1; }'' @ [CHR 0x0A] @
     ''        }'' @ [CHR 0x0A] @
     [CHR 0x0A] @
     ''        /* Keep the text box always visible */'' @ [CHR 0x0A] @
     ''        .stTextInput input:focus {'' @ [CHR 0x0A] @
     ''            opacity: 1;  /* Remain visible when focused */'' @ [CHR 0x0A] @
     ''        }'' @ [CHR 0x0A] @
     ''    </style>'' @ [CHR 0x0A]"

text \<open>
  The whole script: the metric rows, the chat box of lines 128 to 138, the style. The
  chat box calls the dispatcher itself, one call less deep than an advisory does
  through \<^verbatim>\<open>get_ai_solution\<close>, so there the stack has room for one activation more.
\<close>

definition render ::
  "nat \<Rightarrow> (rat \<Rightarrow> string) \<Rightarrow> 's service \<Rightarrow> readings \<Rightarrow> 's world \<Rightarrow> (exn + unit) \<times> 's world" where
  "render room shortest svc m w =
     and_then (metric_rows room shortest svc m w) (\<lambda>w.
     and_then (chat_section (Suc room) svc (user_question m)
                 (emit (TextInput ''Type your question here:'')
                   (emit (Subheader ''Ask the AI a question:'') (emit (Write ''---'') w)))) (\<lambda>w.
     (Inr (), emit (Markdown fade_in_css) w)))"

text \<open>
  The calls of the second trace are those of the first, followed by calls that were all
  made with empty history.
\<close>

definition adds_fresh_calls :: "event list \<Rightarrow> event list \<Rightarrow> bool" where
  "adds_fresh_calls tr tr' = (\<exists>ps. calls tr' = calls tr @ map (Pair []) ps)"

section \<open>Facts about the helper functions\<close>

lemma calls_append: "calls (xs @ ys) = calls xs @ calls ys"
  by (induction xs rule: calls.induct) simp_all

lemma sleeps_append: "sleeps (xs @ ys) = sleeps xs @ sleeps ys"
  by (induction xs rule: sleeps.induct) simp_all

lemma str_in_sublist: "str_in needle s = sublist needle s"
  by (induction s) (simp_all add: sublist_Cons_right)

lemma str_in_iff: "str_in needle s \<longleftrightarrow> (\<exists>pre post. s = pre @ needle @ post)"
  by (simp add: str_in_sublist sublist_def)

lemma trace_emit: "trace (emit ev w) = trace w @ [ev]"
  by (simp add: emit_def)

lemma svc_state_emit: "svc_state (emit ev w) = svc_state w"
  by (simp add: emit_def)

section \<open>The dispatcher\<close>

lemma retries_skip:
  "rate_limited_times svc prompt n (svc_state w) \<Longrightarrow>
   send_request_with_throttling (n + k) svc prompt w =
   send_request_with_throttling k svc prompt
     (w\<lparr>svc_state := state_after svc prompt n (svc_state w),
        trace := trace w @ retry_trace svc prompt n (svc_state w)\<rparr>)"
proof (induction n arbitrary: w)
  case 0
  then show ?case by simp
next
  case (Suc n)
  obtain r s' where step: "svc (svc_state w) [] prompt = (r, s')"
    by (cases "svc (svc_state w) [] prompt")
  with Suc.prems obtain e where r: "r = Inl e" and rl: "is_rate_limit e"
    and rest: "rate_limited_times svc prompt n s'"
    by (cases r) auto
  let ?w' = "w\<lparr>svc_state := s',
     trace := trace w @ [Call [] prompt, Print (''Rate limit exceeded: '' @ exn_str e),
           Print ''Waiting for 1 minute before retrying...'', Sleep 60]\<rparr>"
  have "send_request_with_throttling (Suc n + k) svc prompt w =
        send_request_with_throttling (n + k) svc prompt ?w'"
    using step r rl by (simp add: is_rate_limit_def emit_def)
  also have "\<dots> = send_request_with_throttling k svc prompt
     (?w'\<lparr>svc_state := state_after svc prompt n (svc_state ?w'),
        trace := trace ?w' @ retry_trace svc prompt n (svc_state ?w')\<rparr>)"
    using rest by (intro Suc.IH) simp
  finally show ?case using step r by simp
qed

lemma calls_retry_trace:
  "rate_limited_times svc prompt n s \<Longrightarrow>
   calls (retry_trace svc prompt n s) = replicate n ([], prompt)"
  by (induction n arbitrary: s) (auto split: prod.splits sum.splits)

lemma sleeps_retry_trace:
  "rate_limited_times svc prompt n s \<Longrightarrow> sleeps (retry_trace svc prompt n s) = replicate n 60"
  by (induction n arbitrary: s) (auto split: prod.splits sum.splits)

lemma attempt_after_retries:
  assumes "rate_limited_times svc prompt n (svc_state w)"
    and "n < room"
  shows "send_request_with_throttling room svc prompt w =
         send_request_with_throttling (Suc (room - Suc n)) svc prompt
           (w\<lparr>svc_state := state_after svc prompt n (svc_state w),
              trace := trace w @ retry_trace svc prompt n (svc_state w)\<rparr>)"
proof -
  have "room = n + Suc (room - Suc n)" using assms(2) by simp
  then show ?thesis using retries_skip [OF assms(1), of "Suc (room - Suc n)"] by simp
qed

text \<open>
  While the stack has room: a service that answers the first \<open>n\<close> calls with the
  prompt by a rate-limit failure and call \<open>n + 1\<close> by a text, met by a dispatcher with
  room for more than \<open>n\<close> activations. The dispatcher returns that text, has called the
  service \<open>n + 1\<close> times, each with the same prompt, and has slept \<open>n\<close> times, 60 each
  time.
\<close>

lemma rate_limited_then_success:
  assumes "rate_limited_times svc prompt n (svc_state w)"
    and "svc (state_after svc prompt n (svc_state w)) [] prompt = (Inr text, s')"
    and "n < room"
  shows "send_request_with_throttling room svc prompt w =
           (Inr text,
            w\<lparr>svc_state := s',
              trace := trace w @ retry_trace svc prompt n (svc_state w) @ [Call [] prompt]\<rparr>)
         \<and> calls (trace (snd (send_request_with_throttling room svc prompt w))) =
             calls (trace w) @ replicate (n + 1) ([], prompt)
         \<and> sleeps (trace (snd (send_request_with_throttling room svc prompt w))) =
             sleeps (trace w) @ replicate n 60"
proof -
  have run: "send_request_with_throttling room svc prompt w =
           (Inr text,
            w\<lparr>svc_state := s',
              trace := trace w @ retry_trace svc prompt n (svc_state w) @ [Call [] prompt]\<rparr>)"
    using assms(2) by (simp add: attempt_after_retries [OF assms(1) assms(3)] emit_def)
  show ?thesis
    by (simp add: run calls_append sleeps_append calls_retry_trace [OF assms(1)]
        sleeps_retry_trace [OF assms(1)] replicate_append_same)
qed

lemma rate_limited_then_success_example:
  "send_request_with_throttling 3 (quota_stub 2) ''hi'' world0 =
     (Inr ''echo: hi'',
      \<lparr>svc_state = 3,
       trace = [Call [] ''hi'',
                Print ''Rate limit exceeded: 429 RATE_LIMIT_EXCEEDED: quota exhausted'',
                Print ''Waiting for 1 minute before retrying...'', Sleep 60,
                Call [] ''hi'',
                Print ''Rate limit exceeded: 429 RATE_LIMIT_EXCEEDED: quota exhausted'',
                Print ''Waiting for 1 minute before retrying...'', Sleep 60,
                Call [] ''hi'']\<rparr>)
   \<and> calls (trace (snd (send_request_with_throttling 3 (quota_stub 2) ''hi'' world0))) =
       [([], ''hi''), ([], ''hi''), ([], ''hi'')]
   \<and> sleeps (trace (snd (send_request_with_throttling 3 (quota_stub 2) ''hi'' world0))) = [60, 60]"
  using rate_limited_then_success [of "quota_stub 2" "''hi''" 2 world0 "''echo: hi''" 3 3]
  by (simp add: numeral_2_eq_2 numeral_3_eq_3 quota_stub_def quota_error_def world0_def
      is_rate_limit_def)

lemma rate_limited_times_less:
  "rate_limited_times svc prompt n s \<Longrightarrow> m \<le> n \<Longrightarrow> rate_limited_times svc prompt m s"
proof (induction m arbitrary: n s)
  case 0
  then show ?case by simp
next
  case (Suc m)
  then obtain n' where n: "n = Suc n'" by (cases n) auto
  with Suc.prems have "m \<le> n'" by simp
  with Suc.prems(1) Suc.IH show ?case
    unfolding n by (auto split: prod.splits sum.splits)
qed

lemma quota_stub_rate_limited:
  "s + n \<le> m \<Longrightarrow> rate_limited_times (quota_stub m) prompt n s"
  by (induction n arbitrary: s) (simp_all add: quota_stub_def quota_error_def is_rate_limit_def)

lemma quota_stub_state_after: "state_after (quota_stub m) prompt n s = s + n"
  by (induction n arbitrary: s) (simp_all add: quota_stub_def)

text \<open>
  C1 fails on the code when the rate limiting lasts longer than the stack has room:
  a service that answers the first \<open>n\<close> calls by a rate-limit failure and call
  \<open>n + 1\<close> by a text, met by a dispatcher with room for \<open>n\<close> activations or fewer. The
  dispatcher does not return the text: after as many calls and sleeps as it has room
  for, it raises \<^verbatim>\<open>RecursionError\<close> to its caller.
\<close>

theorem long_rate_limiting_raises_recursion_error:
  assumes "rate_limited_times svc prompt n (svc_state w)"
    and "svc (state_after svc prompt n (svc_state w)) [] prompt = (Inr reply, s')"
    and "room \<le> n"
  shows "send_request_with_throttling room svc prompt w =
           (Inl recursion_error,
            w\<lparr>svc_state := state_after svc prompt room (svc_state w),
              trace := trace w @ retry_trace svc prompt room (svc_state w)\<rparr>)
         \<and> fst (send_request_with_throttling room svc prompt w) \<noteq> Inr reply
         \<and> calls (trace (snd (send_request_with_throttling room svc prompt w))) =
             calls (trace w) @ replicate room ([], prompt)
         \<and> sleeps (trace (snd (send_request_with_throttling room svc prompt w))) =
             sleeps (trace w) @ replicate room 60"
proof -
  have limited: "rate_limited_times svc prompt room (svc_state w)"
    using assms(1,3) by (rule rate_limited_times_less)
  have run: "send_request_with_throttling room svc prompt w =
           (Inl recursion_error,
            w\<lparr>svc_state := state_after svc prompt room (svc_state w),
              trace := trace w @ retry_trace svc prompt room (svc_state w)\<rparr>)"
    using retries_skip [OF limited, of 0] by simp
  show ?thesis
    by (simp add: run calls_append sleeps_append calls_retry_trace [OF limited]
        sleeps_retry_trace [OF limited])
qed

theorem long_rate_limiting_raises_recursion_error_witness:
  "fst (send_request_with_throttling 986 (quota_stub 1200) ''hi'' world0) = Inl recursion_error
   \<and> fst (send_request_with_throttling 986 (quota_stub 1200) ''hi'' world0) \<noteq> Inr ''echo: hi''
   \<and> calls (trace (snd (send_request_with_throttling 986 (quota_stub 1200) ''hi'' world0))) =
       replicate 986 ([], ''hi'')
   \<and> sleeps (trace (snd (send_request_with_throttling 986 (quota_stub 1200) ''hi'' world0))) =
       replicate 986 60"
proof -
  have a: "rate_limited_times (quota_stub 1200) ''hi'' 1200 (svc_state world0)"
    by (rule quota_stub_rate_limited) (simp add: world0_def)
  have b: "quota_stub 1200 (state_after (quota_stub 1200) ''hi'' 1200 (svc_state world0)) [] ''hi'' =
           (Inr ''echo: hi'', 1201)"
    by (simp add: quota_stub_state_after quota_stub_def world0_def)
  have c: "(986 :: nat) \<le> 1200" by simp
  have t: "trace world0 = []" by (simp add: world0_def)
  note r = long_rate_limiting_raises_recursion_error [OF a b c]
  have r1: "fst (send_request_with_throttling 986 (quota_stub 1200) ''hi'' world0) =
            Inl recursion_error"
    by (simp only: conjunct1 [OF r] fst_conv)
  have r2: "fst (send_request_with_throttling 986 (quota_stub 1200) ''hi'' world0) \<noteq>
            Inr ''echo: hi''"
    by (rule conjunct1 [OF conjunct2 [OF r]])
  have r3: "calls (trace (snd (send_request_with_throttling 986 (quota_stub 1200) ''hi'' world0))) =
            replicate 986 ([], ''hi'')"
    using conjunct1 [OF conjunct2 [OF conjunct2 [OF r]]] by (simp only: t calls.simps append_Nil)
  have r4: "sleeps (trace (snd (send_request_with_throttling 986 (quota_stub 1200) ''hi'' world0))) =
            replicate 986 60"
    using conjunct2 [OF conjunct2 [OF conjunct2 [OF r]]] by (simp only: t sleeps.simps append_Nil)
  show ?thesis using r1 r2 r3 r4 by (intro conjI)
qed

text \<open>
  C2. A failure that is not a rate-limit failure is raised to the caller as it is, and
  the call that raised it is the last thing the dispatcher does: no sleep and no call
  follows it. Raised by the first call (\<open>n = 0\<close>), there is one call and no sleep at
  all; raised after \<open>n\<close> rate-limited calls, only the \<open>n\<close> sleeps of those.
\<close>

theorem other_failure_propagates:
  assumes "rate_limited_times svc prompt n (svc_state w)"
    and "svc (state_after svc prompt n (svc_state w)) [] prompt = (Inl e, s')"
    and "\<not> is_rate_limit e"
    and "n < room"
  shows "send_request_with_throttling room svc prompt w =
           (Inl e,
            w\<lparr>svc_state := s',
              trace := trace w @ retry_trace svc prompt n (svc_state w) @ [Call [] prompt]\<rparr>)
         \<and> calls (trace (snd (send_request_with_throttling room svc prompt w))) =
             calls (trace w) @ replicate (n + 1) ([], prompt)
         \<and> sleeps (trace (snd (send_request_with_throttling room svc prompt w))) =
             sleeps (trace w) @ replicate n 60"
proof -
  have run: "send_request_with_throttling room svc prompt w =
           (Inl e,
            w\<lparr>svc_state := s',
              trace := trace w @ retry_trace svc prompt n (svc_state w) @ [Call [] prompt]\<rparr>)"
    using assms(2,3)
    by (simp add: attempt_after_retries [OF assms(1) assms(4)] emit_def is_rate_limit_def)
  show ?thesis
    by (simp add: run calls_append sleeps_append calls_retry_trace [OF assms(1)]
        sleeps_retry_trace [OF assms(1)] replicate_append_same)
qed

theorem other_failure_propagates_witness:
  "send_request_with_throttling 5 (failing_stub auth_error) ''hi'' world0 =
     (Inl auth_error, \<lparr>svc_state = 1, trace = [Call [] ''hi'']\<rparr>)
   \<and> calls (trace (snd (send_request_with_throttling 5 (failing_stub auth_error) ''hi'' world0))) =
       [([], ''hi'')]
   \<and> sleeps (trace (snd (send_request_with_throttling 5 (failing_stub auth_error) ''hi'' world0))) = []"
  using other_failure_propagates [of "failing_stub auth_error" "''hi''" 0 world0 auth_error 1 5]
  by (simp add: failing_stub_def auth_error_def world0_def is_rate_limit_def)

text \<open>
  C3. When a call fails, the dispatcher waits and retries exactly when the text of the
  failure contains \<^verbatim>\<open>RATE_LIMIT_EXCEEDED\<close> as a contiguous substring, and raises the
  failure otherwise; the class and the status code of the failure play no part.
\<close>

theorem rate_limit_is_substring_match:
  assumes "svc (svc_state w) [] prompt = (Inl e, s')"
  shows "send_request_with_throttling (Suc room) svc prompt w =
     (if \<exists>pre post. exn_str e = pre @ ''RATE_LIMIT_EXCEEDED'' @ post then
        send_request_with_throttling room svc prompt
          (w\<lparr>svc_state := s',
             trace := trace w @ [Call [] prompt, Print (''Rate limit exceeded: '' @ exn_str e),
                                 Print ''Waiting for 1 minute before retrying...'', Sleep 60]\<rparr>)
      else (Inl e, w\<lparr>svc_state := s', trace := trace w @ [Call [] prompt]\<rparr>))"
proof -
  have m: "(\<exists>pre post. exn_str e = pre @ ''RATE_LIMIT_EXCEEDED'' @ post) =
           str_in ''RATE_LIMIT_EXCEEDED'' (exn_str e)"
    by (simp only: str_in_iff)
  show ?thesis unfolding m using assms by (simp add: emit_def)
qed

theorem rate_limit_is_substring_match_witness:
  "send_request_with_throttling (Suc 0) (failing_stub mislabelled_error) ''hi'' world0 =
     (Inl recursion_error, \<lparr>svc_state = 1,
             trace = [Call [] ''hi'',
                      Print ''Rate limit exceeded: 401 upstream said RATE_LIMIT_EXCEEDED'',
                      Print ''Waiting for 1 minute before retrying...'', Sleep 60]\<rparr>)
   \<and> send_request_with_throttling (Suc 0) (failing_stub plain_quota_error) ''hi'' world0 =
     (Inl plain_quota_error, \<lparr>svc_state = 1, trace = [Call [] ''hi'']\<rparr>)"
  using rate_limit_is_substring_match
          [of "failing_stub mislabelled_error" world0 "''hi''" mislabelled_error 1 0,
           unfolded str_in_iff [symmetric]]
        rate_limit_is_substring_match
          [of "failing_stub plain_quota_error" world0 "''hi''" plain_quota_error 1 0,
           unfolded str_in_iff [symmetric]]
  by (simp add: failing_stub_def mislabelled_error_def plain_quota_error_def world0_def)

lemma send_calls:
  "\<exists>k. k \<le> room \<and> (0 < k) = (0 < room) \<and>
       calls (trace (snd (send_request_with_throttling room svc prompt w))) =
       calls (trace w) @ replicate k ([], prompt)"
proof (induction room arbitrary: w)
  case 0
  then show ?case by simp
next
  case (Suc room)
  obtain r s' where step: "svc (svc_state w) [] prompt = (r, s')"
    by (cases "svc (svc_state w) [] prompt")
  show ?case
  proof (cases r)
    case (Inr reply)
    with step have "calls (trace (snd (send_request_with_throttling (Suc room) svc prompt w))) =
       calls (trace w) @ replicate 1 ([], prompt)"
      by (simp add: trace_emit calls_append)
    then show ?thesis by (intro exI [of _ 1]) simp
  next
    case (Inl e)
    show ?thesis
    proof (cases "str_in ''RATE_LIMIT_EXCEEDED'' (exn_str e)")
      case False
      with step Inl have "calls (trace (snd (send_request_with_throttling (Suc room) svc prompt w))) =
         calls (trace w) @ replicate 1 ([], prompt)"
        by (simp add: trace_emit calls_append)
      then show ?thesis by (intro exI [of _ 1]) simp
    next
      case True
      let ?w' = "emit (Sleep 60)
                 (emit (Print ''Waiting for 1 minute before retrying...'')
                   (emit (Print (''Rate limit exceeded: '' @ exn_str e))
                     (emit (Call [] prompt) (w\<lparr>svc_state := s'\<rparr>))))"
      from Suc.IH [of ?w'] obtain k where k: "k \<le> room"
        and c: "calls (trace (snd (send_request_with_throttling room svc prompt ?w'))) =
                calls (trace ?w') @ replicate k ([], prompt)"
        by blast
      have "send_request_with_throttling (Suc room) svc prompt w =
            send_request_with_throttling room svc prompt ?w'"
        using step Inl True by simp
      then have "calls (trace (snd (send_request_with_throttling (Suc room) svc prompt w))) =
         calls (trace w) @ replicate (Suc k) ([], prompt)"
        using c by (simp add: trace_emit calls_append)
      then show ?thesis using k by (intro exI [of _ "Suc k"]) simp
    qed
  qed
qed

lemma send_fresh:
  "send_request_with_throttling room (\<lambda>s h. svc s []) prompt w =
   send_request_with_throttling room svc prompt w"
  by (induction room arbitrary: w) (simp_all add: Let_def split: prod.splits sum.splits)

lemma send_trace_irrelevant:
  "fst (send_request_with_throttling room svc prompt (w\<lparr>trace := t\<rparr>)) =
   fst (send_request_with_throttling room svc prompt w)
   \<and> svc_state (snd (send_request_with_throttling room svc prompt (w\<lparr>trace := t\<rparr>))) =
   svc_state (snd (send_request_with_throttling room svc prompt w))"
proof (induction room arbitrary: w t)
  case 0
  then show ?case by simp
next
  case (Suc room)
  obtain r s' where step: "svc (svc_state w) [] prompt = (r, s')"
    by (cases "svc (svc_state w) [] prompt")
  show ?case
  proof (cases r)
    case (Inr reply)
    with step show ?thesis by (simp add: emit_def)
  next
    case (Inl e)
    show ?thesis
    proof (cases "str_in ''RATE_LIMIT_EXCEEDED'' (exn_str e)")
      case False
      with step Inl show ?thesis by (simp add: emit_def)
    next
      case True
      let ?ev = "[Call [] prompt, Print (''Rate limit exceeded: '' @ exn_str e),
                  Print ''Waiting for 1 minute before retrying...'', Sleep 60]"
      have a: "send_request_with_throttling (Suc room) svc prompt (w\<lparr>trace := t\<rparr>) =
            send_request_with_throttling room svc prompt ((w\<lparr>svc_state := s'\<rparr>)\<lparr>trace := t @ ?ev\<rparr>)"
        using step Inl True by (simp add: emit_def)
      have b: "send_request_with_throttling (Suc room) svc prompt w =
            send_request_with_throttling room svc prompt ((w\<lparr>svc_state := s'\<rparr>)\<lparr>trace := trace w @ ?ev\<rparr>)"
        using step Inl True by (simp add: emit_def)
      show ?thesis
        unfolding a b
        using Suc.IH [where w = "w\<lparr>svc_state := s'\<rparr>" and t = "t @ ?ev"]
          Suc.IH [where w = "w\<lparr>svc_state := s'\<rparr>" and t = "trace w @ ?ev"]
        by simp
    qed
  qed
qed

section \<open>Every call is made with empty history\<close>

lemma fresh_refl: "adds_fresh_calls tr tr"
  unfolding adds_fresh_calls_def by (rule exI [of _ "[]"]) simp

lemma fresh_trans:
  "adds_fresh_calls a b \<Longrightarrow> adds_fresh_calls b c \<Longrightarrow> adds_fresh_calls a c"
  unfolding adds_fresh_calls_def
proof -
  assume "\<exists>ps. calls b = calls a @ map (Pair []) ps" "\<exists>ps. calls c = calls b @ map (Pair []) ps"
  then obtain ps qs where "calls b = calls a @ map (Pair []) ps" "calls c = calls b @ map (Pair []) qs"
    by blast
  then have "calls c = calls a @ map (Pair []) (ps @ qs)" by simp
  then show "\<exists>ps. calls c = calls a @ map (Pair []) ps" by blast
qed

lemma fresh_emit: "calls [ev] = [] \<Longrightarrow> adds_fresh_calls tr (trace (emit ev w)) = adds_fresh_calls tr (trace w)"
  by (simp add: adds_fresh_calls_def trace_emit calls_append)

lemma fresh_send:
  "adds_fresh_calls (trace w) (trace (snd (send_request_with_throttling room svc prompt w)))"
proof -
  obtain k where "calls (trace (snd (send_request_with_throttling room svc prompt w))) =
       calls (trace w) @ replicate k ([], prompt)"
    using send_calls [of room svc prompt w] by blast
  then have "calls (trace (snd (send_request_with_throttling room svc prompt w))) =
       calls (trace w) @ map (Pair []) (replicate k prompt)"
    by simp
  then show ?thesis unfolding adds_fresh_calls_def by blast
qed

lemma calls_show_solution:
  "calls (trace (snd (show_solution heading r))) = calls (trace (snd r))"
  by (simp add: show_solution_def trace_emit calls_append split: prod.splits option.splits sum.splits)

lemma fresh_show_solution:
  "adds_fresh_calls tr (trace (snd (show_solution heading r))) = adds_fresh_calls tr (trace (snd r))"
  by (simp add: adds_fresh_calls_def calls_show_solution)

lemma fresh_and_then:
  assumes "adds_fresh_calls tr (trace (snd r))"
    and "\<And>w. adds_fresh_calls tr (trace w) \<Longrightarrow> adds_fresh_calls tr (trace (snd (f w)))"
  shows "adds_fresh_calls tr (trace (snd (and_then r f)))"
proof (cases r)
  case (Pair res w)
  show ?thesis
  proof (cases res)
    case (Inl e)
    with Pair assms(1) show ?thesis by (simp add: and_then_def)
  next
    case (Inr u)
    with Pair have "and_then r f = f w" by (simp add: and_then_def)
    then show ?thesis using assms(2) [of w] assms(1) Pair by simp
  qed
qed

lemma fresh_emit_any:
  "adds_fresh_calls tr (trace (emit (Write a) w)) = adds_fresh_calls tr (trace w)"
  "adds_fresh_calls tr (trace (emit (Warning a) w)) = adds_fresh_calls tr (trace w)"
  "adds_fresh_calls tr (trace (emit (Success a) w)) = adds_fresh_calls tr (trace w)"
  "adds_fresh_calls tr (trace (emit (Sleep d) w)) = adds_fresh_calls tr (trace w)"
  "adds_fresh_calls tr (trace (emit (Title a) w)) = adds_fresh_calls tr (trace w)"
  "adds_fresh_calls tr (trace (emit (Subheader a) w)) = adds_fresh_calls tr (trace w)"
  "adds_fresh_calls tr (trace (emit (TextInput a) w)) = adds_fresh_calls tr (trace w)"
  "adds_fresh_calls tr (trace (emit (Markdown a) w)) = adds_fresh_calls tr (trace w)"
  by (simp_all add: fresh_emit)

lemma fresh_advisory:
  assumes "adds_fresh_calls tr (trace w)"
  shows "adds_fresh_calls tr
           (trace (snd (show_solution heading (get_ai_solution room shortest svc name v w))))"
  unfolding fresh_show_solution get_ai_solution_def
  using assms fresh_send by (rule fresh_trans)

lemma fresh_cpu_section:
  assumes "adds_fresh_calls tr (trace w)"
  shows "adds_fresh_calls tr (trace (snd (cpu_section room shortest svc v w)))"
  unfolding cpu_section_def Let_def
  by (cases "of_int THRESHOLD < v")
     (simp_all only: if_True if_False snd_conv fresh_emit_any fresh_advisory assms)

lemma fresh_memory_section:
  assumes "adds_fresh_calls tr (trace w)"
  shows "adds_fresh_calls tr (trace (snd (memory_section room shortest svc v w)))"
  unfolding memory_section_def Let_def
  by (cases "of_int THRESHOLD < v")
     (simp_all only: if_True if_False snd_conv fresh_emit_any fresh_advisory assms)

lemma fresh_network_section:
  assumes "adds_fresh_calls tr (trace w)"
  shows "adds_fresh_calls tr (trace (snd (network_section room shortest svc nb na w)))"
  unfolding network_section_def Let_def
  by (cases "of_int THRESHOLD < network_usage nb na")
     (simp_all only: if_True if_False snd_conv fresh_emit_any fresh_advisory assms)

lemma fresh_disk_section:
  assumes "adds_fresh_calls tr (trace w)"
  shows "adds_fresh_calls tr (trace (snd (disk_section room shortest svc db da w)))"
  unfolding disk_section_def Let_def
  by (cases "of_int THRESHOLD < disk_io_usage db da")
     (simp_all only: if_True if_False snd_conv fresh_emit_any fresh_advisory assms)

lemma fresh_chat_section:
  assumes "adds_fresh_calls tr (trace w)"
  shows "adds_fresh_calls tr (trace (snd (chat_section room svc q w)))"
proof (cases "q = []")
  case True
  then show ?thesis using assms by (simp add: chat_section_def)
next
  case False
  have "adds_fresh_calls tr (trace (snd (send_request_with_throttling room svc q w)))"
    using assms fresh_send by (rule fresh_trans)
  then show ?thesis using False by (simp add: chat_section_def fresh_show_solution)
qed

lemma fresh_metric_rows:
  assumes "adds_fresh_calls tr (trace w)"
  shows "adds_fresh_calls tr (trace (snd (metric_rows room shortest svc m w)))"
  unfolding metric_rows_def
  apply (rule fresh_and_then)
   apply (rule fresh_cpu_section)
   apply (simp only: fresh_emit_any assms)
  apply (rule fresh_and_then)
   apply (rule fresh_memory_section)
   apply (simp only: fresh_emit_any)
  apply (rule fresh_and_then)
   apply (rule fresh_network_section)
   apply (simp only: fresh_emit_any)
  apply (rule fresh_disk_section)
  apply (simp only: fresh_emit_any)
  done

lemma fresh_render:
  "adds_fresh_calls (trace w) (trace (snd (render room shortest svc m w)))"
  unfolding render_def
  apply (rule fresh_and_then)
   apply (rule fresh_metric_rows)
   apply (rule fresh_refl)
  apply (rule fresh_and_then)
   apply (rule fresh_chat_section)
   apply (simp only: fresh_emit_any)
  apply (simp only: snd_conv fresh_emit_any)
  done

lemma get_ai_solution_fresh:
  "get_ai_solution room shortest (\<lambda>s h. svc s []) name v w = get_ai_solution room shortest svc name v w"
  unfolding get_ai_solution_def by (rule send_fresh)

lemma render_fresh_service:
  "render room shortest (\<lambda>s h. svc s []) m w = render room shortest svc m w"
  unfolding render_def metric_rows_def cpu_section_def memory_section_def
      network_section_def disk_section_def chat_section_def get_ai_solution_fresh send_fresh
  by (rule refl)

text \<open>
  C4. Every exchange the dispatcher opens has empty history, on the first attempt
  and on every retry, whoever called it: the calls it adds to the trace all carry the
  history \<open>[]\<close>, so do all calls of a page render (advisories and chat box), and
  neither the dispatcher nor the page can tell a service from the same service with
  its history argument fixed to \<open>[]\<close>. What went on before (the trace) has no
  influence on what the dispatcher returns.
\<close>

theorem every_dispatch_has_empty_history:
  "(\<exists>k. k \<le> room \<and>
        calls (trace (snd (send_request_with_throttling room svc prompt w))) =
        calls (trace w) @ replicate k ([], prompt))
   \<and> send_request_with_throttling room (\<lambda>s h. svc s []) prompt w =
     send_request_with_throttling room svc prompt w
   \<and> fst (send_request_with_throttling room svc prompt (w\<lparr>trace := t\<rparr>)) =
     fst (send_request_with_throttling room svc prompt w)
   \<and> (\<exists>ps. calls (trace (snd (render room shortest svc m w))) =
           calls (trace w) @ map (Pair []) ps)
   \<and> render room shortest (\<lambda>s h. svc s []) m w = render room shortest svc m w"
proof -
  have "\<exists>k. k \<le> room \<and>
        calls (trace (snd (send_request_with_throttling room svc prompt w))) =
        calls (trace w) @ replicate k ([], prompt)"
    using send_calls [of room svc prompt w] by blast
  moreover have "\<exists>ps. calls (trace (snd (render room shortest svc m w))) =
           calls (trace w) @ map (Pair []) ps"
    using fresh_render [of w room shortest svc m] by (simp add: adds_fresh_calls_def)
  ultimately show ?thesis
    by (simp add: send_fresh send_trace_irrelevant render_fresh_service)
qed

section \<open>The advisory prompt\<close>

lemma str_int_90: "str_int 90 = ''90''"
  by (simp add: str_int_def str_nat.simps digit_def)

lemma occurs_at_append:
  "occurs_at needle (length pre) (pre @ needle @ post)"
  by (simp add: occurs_at_def)

lemma occurs_at_append3:
  "occurs_at needle (length a + length b + length c) (a @ b @ c @ needle @ post)"
  using occurs_at_append [of needle "a @ b @ c" post] by (simp add: add.assoc)

lemma occurs_at_append5:
  "occurs_at needle (length a + length b + length c + length d + length e)
     (a @ b @ c @ d @ e @ needle @ post)"
  using occurs_at_append [of needle "a @ b @ c @ d @ e" post] by (simp add: add.assoc)

lemma occurs_at_prefix:
  "occurs_at needle 0 s = prefix needle s"
  by (auto simp: occurs_at_def prefix_def take_is_prefix) (metis append_eq_conv_conj)

lemma occurs_at_Suc: "occurs_at needle (Suc i) (c # cs) = occurs_at needle i cs"
  by (simp add: occurs_at_def)

lemma count_occ_Nil: "count_occ needle [] = (if needle = [] then 1 else 0)"
  by (auto simp: count_occ_def occurs_at_def)

lemma count_occ_Cons:
  "count_occ needle (c # cs) = (if prefix needle (c # cs) then 1 else 0) + count_occ needle cs"
proof -
  have "[0..<Suc (length (c # cs))] = 0 # map Suc [0..<Suc (length cs)]"
    by (simp add: upt_conv_Cons map_Suc_upt del: upt_Suc)
  then have "count_occ needle (c # cs) =
      (if occurs_at needle 0 (c # cs) then 1 else 0)
      + length (filter (\<lambda>i. occurs_at needle (Suc i) (c # cs)) [0..<Suc (length cs)])"
    unfolding count_occ_def by (simp add: filter_map o_def del: upt_Suc)
  then show ?thesis
    by (simp add: occurs_at_Suc occurs_at_prefix count_occ_def)
qed

lemma two_occurrences:
  assumes "occurs_at needle i s" and "occurs_at needle j s" and "i \<noteq> j"
  shows "2 \<le> count_occ needle s"
proof -
  let ?xs = "filter (\<lambda>i. occurs_at needle i s) [0..<Suc (length s)]"
  have "i < Suc (length s)" "j < Suc (length s)"
    using assms(1,2) by (simp_all add: occurs_at_def)
  then have "i \<in> set ?xs" "j \<in> set ?xs"
    using assms(1,2) by (simp_all del: upt_Suc)
  then have "{i, j} \<subseteq> set ?xs" by simp
  then have "card {i, j} \<le> card (set ?xs)" by (intro card_mono) simp_all
  also have "\<dots> \<le> length ?xs" by (rule card_length)
  finally show ?thesis using assms(3) by (simp add: count_occ_def)
qed

lemma one_occurrence:
  assumes "occurs_at needle i s"
  shows "1 \<le> count_occ needle s"
proof -
  let ?xs = "filter (\<lambda>i. occurs_at needle i s) [0..<Suc (length s)]"
  have "i < Suc (length s)"
    using assms by (simp add: occurs_at_def)
  then have "i \<in> set ?xs"
    using assms by (simp del: upt_Suc)
  then have "0 < length ?xs" by (rule length_pos_if_in_set)
  then have "1 \<le> length ?xs" by (simp only: One_nat_def Suc_le_eq)
  then show ?thesis by (simp only: count_occ_def)
qed

lemma prompt_cpu_90:
  "get_ai_solution_prompt shortest ''CPU'' (PyInt 90) =
   ''The CPU usage is 90%. Provide step-by-step recommendations on how to resolve high CPU usage.''"
  by (simp add: get_ai_solution_prompt_def py_format_def str_int_90)

lemma count_cpu: "count_occ ''CPU''
   ''The CPU usage is 90%. Provide step-by-step recommendations on how to resolve high CPU usage.'' = 2"
  by (simp add: count_occ_Cons count_occ_Nil)

lemma count_90: "count_occ ''90''
   ''The CPU usage is 90%. Provide step-by-step recommendations on how to resolve high CPU usage.'' = 1"
  by (simp add: count_occ_Cons count_occ_Nil)


lemma float_str_90: "float_str shortest 90 = ''90.0''"
  by (simp add: float_str_def str_int_90)

lemma digit_in_digits: "digit d \<in> set ''0123456789''"
  unfolding digit_def by (rule nth_mem) simp

lemma digit_val_digit: "digit_val (digit d) = Some (d mod 10)"
proof -
  have "map_of (zip ''0123456789'' [0..<10]) (''0123456789'' ! (d mod 10)) =
        Some ([0..<10] ! (d mod 10))"
    by (rule map_of_zip_nth) simp_all
  then show ?thesis by (simp add: digit_val_def digit_def)
qed

lemma str_nat_digits: "set (str_nat n) \<subseteq> set ''0123456789''"
proof (induction n rule: str_nat.induct)
  case (1 n)
  show ?case
  proof (cases "n < 10")
    case True
    then show ?thesis using digit_in_digits [of n] by (subst str_nat.simps) simp
  next
    case False
    then show ?thesis
      using "1.IH" digit_in_digits [of "n mod 10"] by (subst str_nat.simps) simp
  qed
qed

lemma str_nat_nonempty: "str_nat n \<noteq> []"
  by (subst str_nat.simps) simp

lemma digits_val_rev_str_nat: "digits_val_rev (rev (str_nat n)) = Some n"
proof (induction n rule: str_nat.induct)
  case (1 n)
  show ?case
  proof (cases "n < 10")
    case True
    then show ?thesis by (subst str_nat.simps) (simp add: digit_val_digit)
  next
    case False
    then show ?thesis
      using "1.IH" by (subst str_nat.simps) (simp add: digit_val_digit)
  qed
qed

lemma nat_of_text_str_nat: "nat_of_text (str_nat n) = Some n"
  by (simp add: nat_of_text_def str_nat_nonempty digits_val_rev_str_nat)

lemma str_nat_no_sign: "CHR ''-'' \<notin> set (str_nat n)"
  using str_nat_digits [of n] by auto

lemma str_nat_no_point: "CHR ''.'' \<notin> set (str_nat n)"
  using str_nat_digits [of n] by auto

lemma str_nat_no_e: "CHR ''e'' \<notin> set (str_nat n)"
  using str_nat_digits [of n] by auto

lemma str_nat_Cons: "\<exists>c cs. str_nat n = c # cs \<and> c \<noteq> CHR ''-''"
proof (cases "str_nat n")
  case Nil
  then show ?thesis using str_nat_nonempty by simp
next
  case (Cons c cs)
  then show ?thesis using str_nat_no_sign [of n] by auto
qed

lemma int_of_text_str_nat: "int_of_text (str_nat n) = Some (int n)"
proof -
  obtain c cs where "str_nat n = c # cs" "c \<noteq> CHR ''-''" using str_nat_Cons by blast
  then show ?thesis
    using nat_of_text_str_nat [of n] by (simp add: int_of_text_def)
qed

lemma int_of_text_str_int: "int_of_text (str_int i) = Some i"
proof (cases "i < 0")
  case True
  then show ?thesis by (simp add: str_int_def int_of_text_def nat_of_text_str_nat)
next
  case False
  then show ?thesis by (simp add: str_int_def int_of_text_str_nat)
qed

lemma unsigned_float_point_zero: "unsigned_float (str_nat n @ ''.0'') = Some (of_nat n)"
proof -
  have no_e: "\<And>x. x \<in> set (str_nat n @ ''.0'') \<Longrightarrow> x \<noteq> CHR ''e''"
    using str_nat_no_e [of n] by auto
  have e: "split_at CHR ''e'' (str_nat n @ ''.0'') = (str_nat n @ ''.0'', None)"
    using no_e by (simp add: split_at_def takeWhile_eq_all_conv dropWhile_eq_Nil_conv)
  have no_p: "\<And>x. x \<in> set (str_nat n) \<Longrightarrow> x \<noteq> CHR ''.''"
    using str_nat_no_point [of n] by auto
  have p: "split_at CHR ''.'' (str_nat n @ ''.0'') = (str_nat n, Some ''0'')"
    using no_p by (simp add: split_at_def takeWhile_append2 dropWhile_append2)
  have "digit 0 = CHR ''0''" by (simp add: digit_def)
  then have "digit_val CHR ''0'' = Some 0" using digit_val_digit [of 0] by simp
  then have z: "nat_of_text ''0'' = Some 0"
    by (simp add: nat_of_text_def)
  show ?thesis
    by (simp add: unsigned_float_def e unsigned_decimal_def p nat_of_text_str_nat z)
qed

lemma decimal_of_text_point_zero: "decimal_of_text (str_int k @ ''.0'') = Some (of_int k)"
proof (cases "k < 0")
  case True
  then show ?thesis
    by (simp add: str_int_def decimal_of_text_def unsigned_float_point_zero)
next
  case False
  obtain c cs where c: "str_nat (nat k) = c # cs" "c \<noteq> CHR ''-''" using str_nat_Cons by blast
  have "decimal_of_text (str_nat (nat k) @ ''.0'') = unsigned_float (str_nat (nat k) @ ''.0'')"
    using c by (simp add: decimal_of_text_def)
  then show ?thesis using False by (simp add: str_int_def unsigned_float_point_zero)
qed

lemma reads_back_py_format:
  assumes "is_pyvalue v"
    and "\<And>x. v = PyFloat x \<Longrightarrow> \<not> (of_int \<lfloor>x\<rfloor> = x \<and> \<bar>x\<bar> < 10 ^ 16) \<Longrightarrow>
           reads_back (shortest x) (PyFloat x)"
  shows "reads_back (py_format shortest v) v"
proof (cases v)
  case (PyInt i)
  then show ?thesis by (simp add: py_format_def int_of_text_str_int)
next
  case (PyFloat x)
  show ?thesis
  proof (cases "of_int \<lfloor>x\<rfloor> = x \<and> \<bar>x\<bar> < 10 ^ 16")
    case True
    then have fx: "rat_of_int \<lfloor>x\<rfloor> = x" by (rule conjunct1)
    have rx: "round_to_double x = x" using assms(1) PyFloat by (simp add: is_double_def)
    have t: "py_format shortest (PyFloat x) = str_int \<lfloor>x\<rfloor> @ ''.0''"
      unfolding py_format_def float_str_def pyvalue.case using True by (rule if_P)
    have "decimal_of_text (str_int \<lfloor>x\<rfloor> @ ''.0'') = Some x"
      using decimal_of_text_point_zero [of "\<lfloor>x\<rfloor>"] by (simp only: fx)
    then show ?thesis unfolding PyFloat t using rx by simp
  next
    case False
    have t: "py_format shortest (PyFloat x) = shortest x"
      unfolding py_format_def float_str_def pyvalue.case using False by (rule if_not_P)
    show ?thesis unfolding PyFloat t by (rule assms(2) [OF PyFloat False])
  qed
qed (simp_all add: py_format_def)


lemma rd_601_8: "round_to_double (601 / 8) = 601 / 8"
  by code_simp

lemma double_601_8: "is_double (601 / 8)"
  by (simp add: is_double_def rd_601_8)


lemma rd_90: "round_to_double 90 = 90"
  by code_simp

lemma double_90: "is_double 90"
  by (simp add: is_double_def rd_90)

lemma reads_75_125: "decimal_of_text ''75.125'' = Some (601 / 8)"
  by code_simp

lemma reads_75_12: "decimal_of_text ''75.12'' = Some (1878 / 25)"
  by code_simp


lemma fmt_2f_601_8: "fmt_2f (601 / 8) = ''75.12''"
proof -
  have "\<bar>601 / 8 :: rat\<bar> * 100 = 15025 / 2" by simp
  moreover have "round_half_even (15025 / 2) = 7512"
    by code_simp
  ultimately have "nat (round_half_even (\<bar>601 / 8\<bar> * 100)) = 7512" by simp
  then show ?thesis
    by (simp add: fmt_2f_def Let_def str_nat.simps digit_def)
qed

lemma rd_75_12: "round_to_double (1878 / 25) \<noteq> 601 / 8"
  by code_simp

lemma two_decimals_lose: "\<not> reads_back (fmt_2f (601 / 8)) (PyFloat (601 / 8))"
proof -
  have "reads_back ''75.12'' (PyFloat (601 / 8)) = (round_to_double (1878 / 25) = 601 / 8)"
    by (simp only: reads_back.simps reads_75_12 option.case)
  then show ?thesis using rd_75_12 by (simp only: fmt_2f_601_8 simp_thms)
qed


text \<open>
  The float 90.0, which is what a CPU reading of ninety percent is, is written with its
  decimal point.
\<close>

lemma float_reading_90_prompt:
  "get_ai_solution_prompt shortest ''CPU'' (PyFloat 90) =
   ''The CPU usage is 90.0%. Provide step-by-step recommendations on how to resolve high CPU usage.''"
  by (simp add: get_ai_solution_prompt_def py_format_def float_str_90)

text \<open>
  C5, as stated, fails at the value the page passes: a CPU reading of ninety percent
  is the float 90.0, and the prompt built from it says \<^verbatim>\<open>90.0%\<close>, not \<^verbatim>\<open>90%\<close>.
\<close>

theorem float_ninety_counterexample:
  "is_pyvalue (PyFloat 90)
   \<and> get_ai_solution_prompt stub_repr ''CPU'' (PyFloat 90) \<noteq>
     ''The CPU usage is 90%. Provide step-by-step recommendations on how to resolve high CPU usage.''"
  by (simp add: float_reading_90_prompt double_90)

text \<open>
  C5, amended. For every name and value the prompt is the template with the name in
  both places and \<^verbatim>\<open>str(value)\<close> before the percent sign, and this prompt is what
  goes to the dispatcher. Nothing of the value is rounded away: the text written reads
  back as the same value, for every integer, for negative zero, the infinities and
  NaN, for every integral float below \<open>10^16\<close>, and for every other float as soon as
  the interpreter's shortest text for it does (which is what that text is for). The
  two decimals of the display would not do: \<^verbatim>\<open>75.12\<close> does not read back as 75.125.
  For \<^verbatim>\<open>CPU\<close> the float 90.0 gives \<^verbatim>\<open>90.0%\<close> and the integer 90 gives \<^verbatim>\<open>90%\<close>.
\<close>

theorem advisory_prompt_keeps_value:
  "get_ai_solution_prompt shortest metric_name v =
     ''The '' @ metric_name @ '' usage is '' @ py_format shortest v @
     ''%. Provide step-by-step recommendations on how to resolve high '' @ metric_name @
     '' usage.''
   \<and> get_ai_solution room shortest svc metric_name v w =
     send_request_with_throttling room svc
       (''The '' @ metric_name @ '' usage is '' @ py_format shortest v @
        ''%. Provide step-by-step recommendations on how to resolve high '' @ metric_name @
        '' usage.'') w
   \<and> (is_pyvalue v
        \<and> (\<forall>x. v = PyFloat x \<longrightarrow>
               (rat_of_int \<lfloor>x\<rfloor> = x \<and> \<bar>x\<bar> < 10 ^ 16) \<or> reads_back (shortest x) (PyFloat x))
      \<longrightarrow> reads_back (py_format shortest v) v)
   \<and> \<not> reads_back (fmt_2f (601 / 8)) (PyFloat (601 / 8))
   \<and> get_ai_solution_prompt shortest ''CPU'' (PyFloat 90) =
     ''The CPU usage is 90.0%. Provide step-by-step recommendations on how to resolve high CPU usage.''
   \<and> get_ai_solution_prompt shortest ''CPU'' (PyInt 90) =
     ''The CPU usage is 90%. Provide step-by-step recommendations on how to resolve high CPU usage.''"
proof -
  have a: "get_ai_solution_prompt shortest metric_name v =
     ''The '' @ metric_name @ '' usage is '' @ py_format shortest v @
     ''%. Provide step-by-step recommendations on how to resolve high '' @ metric_name @
     '' usage.''"
    by (simp only: get_ai_solution_prompt_def)
  have b: "get_ai_solution room shortest svc metric_name v w =
     send_request_with_throttling room svc
       (''The '' @ metric_name @ '' usage is '' @ py_format shortest v @
        ''%. Provide step-by-step recommendations on how to resolve high '' @ metric_name @
        '' usage.'') w"
    by (simp only: get_ai_solution_def get_ai_solution_prompt_def)
  have c: "is_pyvalue v
        \<and> (\<forall>x. v = PyFloat x \<longrightarrow>
               (rat_of_int \<lfloor>x\<rfloor> = x \<and> \<bar>x\<bar> < 10 ^ 16) \<or> reads_back (shortest x) (PyFloat x))
      \<longrightarrow> reads_back (py_format shortest v) v"
  proof
    assume h: "is_pyvalue v
        \<and> (\<forall>x. v = PyFloat x \<longrightarrow>
               (rat_of_int \<lfloor>x\<rfloor> = x \<and> \<bar>x\<bar> < 10 ^ 16) \<or> reads_back (shortest x) (PyFloat x))"
    show "reads_back (py_format shortest v) v"
    proof (rule reads_back_py_format)
      show "is_pyvalue v" using h by (rule conjunct1)
    next
      fix x
      assume "v = PyFloat x" "\<not> (rat_of_int \<lfloor>x\<rfloor> = x \<and> \<bar>x\<bar> < 10 ^ 16)"
      with h show "reads_back (shortest x) (PyFloat x)" by blast
    qed
  qed
  show ?thesis
    using a b c two_decimals_lose float_reading_90_prompt [of shortest] prompt_cpu_90 [of shortest]
    by (intro conjI)
qed

theorem advisory_prompt_keeps_value_witness:
  "reads_back (py_format sample_repr (PyFloat (601 / 8))) (PyFloat (601 / 8))
   \<and> py_format sample_repr (PyFloat (601 / 8)) = ''75.125''
   \<and> reads_back (py_format sample_repr (PyFloat 90)) (PyFloat 90)
   \<and> reads_back (py_format sample_repr (PyInt 90)) (PyInt 90)"
proof -
  have s: "sample_repr (601 / 8) = ''75.125''" by (simp add: sample_repr_def)
  have r: "reads_back (sample_repr (601 / 8)) (PyFloat (601 / 8))"
    unfolding s by (simp only: reads_back.simps reads_75_125 option.case rd_601_8)
  have v1: "is_pyvalue (PyFloat (601 / 8))" by (simp add: double_601_8)
  have v2: "is_pyvalue (PyFloat 90)" by (simp add: double_90)
  have n: "\<not> (rat_of_int \<lfloor>601 / 8 :: rat\<rfloor> = 601 / 8 \<and> \<bar>601 / 8 :: rat\<bar> < 10 ^ 16)"
  proof -
    have "\<lfloor>601 / 8 :: rat\<rfloor> = 75" by code_simp
    then show ?thesis by simp
  qed
  have t: "py_format sample_repr (PyFloat (601 / 8)) = ''75.125''"
    unfolding py_format_def float_str_def pyvalue.case s [symmetric] using n by (rule if_not_P)
  have i90: "rat_of_int \<lfloor>90 :: rat\<rfloor> = 90 \<and> \<bar>90 :: rat\<bar> < 10 ^ 16" by simp
  note th = advisory_prompt_keeps_value
  have w1: "reads_back (py_format sample_repr (PyFloat (601 / 8))) (PyFloat (601 / 8))"
    using conjunct1 [OF conjunct2 [OF conjunct2
        [OF th [of sample_repr "''CPU''" "PyFloat (601 / 8)" 0 "failing_stub auth_error" world0]]]]
      v1 r by blast
  have w2: "reads_back (py_format sample_repr (PyFloat 90)) (PyFloat 90)"
    using conjunct1 [OF conjunct2 [OF conjunct2
        [OF th [of sample_repr "''CPU''" "PyFloat 90" 0 "failing_stub auth_error" world0]]]]
      v2 i90 by blast
  have w3: "reads_back (py_format sample_repr (PyInt 90)) (PyInt 90)"
    using conjunct1 [OF conjunct2 [OF conjunct2
        [OF th [of sample_repr "''CPU''" "PyInt 90" 0 "failing_stub auth_error" world0]]]]
    by simp
  show ?thesis using w1 t w2 w3 by (intro conjI)
qed

lemma count_occ_skip:
  "x \<notin> set v \<Longrightarrow> count_occ (x # xs) (v @ r) = count_occ (x # xs) r"
  by (induction v) (simp_all add: count_occ_Cons)

lemma no_late_occurrence:
  assumes "t \<noteq> []" and "last t \<notin> set B" and "0 < i"
  shows "\<not> occurs_at t i (t @ B)"
proof
  assume occ: "occurs_at t i (t @ B)"
  then have len: "i + length t \<le> length t + length B"
    and eq: "take (length t) (drop i (t @ B)) = t"
    by (simp_all add: occurs_at_def)
  have pos: "0 < length t" using assms(1) by simp
  have "last t = t ! (length t - 1)"
    using assms(1) by (rule last_conv_nth)
  also have "\<dots> = take (length t) (drop i (t @ B)) ! (length t - 1)"
    by (simp only: eq)
  also have "\<dots> = drop i (t @ B) ! (length t - 1)"
    using pos by (intro nth_take) simp
  also have "\<dots> = (t @ B) ! (i + (length t - 1))"
    using len by (intro nth_drop) simp
  also have "\<dots> = B ! (i + (length t - 1) - length t)"
    using pos assms(3) by (intro nth_append_right) arith
  also have "i + (length t - 1) - length t = i - 1"
    using pos assms(3) by arith
  finally have "last t = B ! (i - 1)" .
  moreover have "i - 1 < length B" using len assms(3) by simp
  ultimately have "last t \<in> set B" by simp
  with assms(2) show False by simp
qed

lemma count_occ_at_front:
  assumes "t \<noteq> []" and "last t \<notin> set B"
  shows "count_occ t (t @ B) = 1"
proof -
  have front: "occurs_at t 0 (t @ B)" by (simp add: occurs_at_def)
  have split: "[0..<Suc (length (t @ B))] = 0 # [Suc 0..<Suc (length (t @ B))]"
    by (rule upt_conv_Cons) simp
  have none: "filter (\<lambda>i. occurs_at t i (t @ B)) [Suc 0..<Suc (length (t @ B))] = []"
    unfolding filter_empty_conv using no_late_occurrence [OF assms] by (simp del: upt_Suc)
  have "filter (\<lambda>i. occurs_at t i (t @ B)) [0..<Suc (length (t @ B))] = [0]"
    unfolding split using front none by (simp del: upt_Suc)
  then show ?thesis by (simp only: count_occ_def) simp
qed

lemma value_occurs_once:
  assumes "t \<noteq> []" and "hd t \<notin> set A" and "last t \<notin> set B"
  shows "count_occ t (A @ t @ B) = 1"
proof -
  obtain x xs where t: "t = x # xs" using assms(1) by (cases t) auto
  then have "x \<notin> set A" using assms(2) by simp
  then have "count_occ (x # xs) (A @ (x # xs) @ B) = count_occ (x # xs) ((x # xs) @ B)"
    by (rule count_occ_skip)
  then show ?thesis using count_occ_at_front [OF assms(1,3)] by (simp only: t)
qed


lemma value_once_in_prompt:
  assumes "hd (py_format shortest v) \<notin> set (''The '' @ metric_name @ '' usage is '')"
    and "last (py_format shortest v) \<notin>
         set (''%. Provide step-by-step recommendations on how to resolve high '' @ metric_name @
              '' usage.'')"
    and "py_format shortest v \<noteq> []"
  shows "count_occ (py_format shortest v) (get_ai_solution_prompt shortest metric_name v) = 1"
proof -
  have "get_ai_solution_prompt shortest metric_name v =
        (''The '' @ metric_name @ '' usage is '') @ py_format shortest v @
        (''%. Provide step-by-step recommendations on how to resolve high '' @ metric_name @
         '' usage.'')"
    by (simp add: get_ai_solution_prompt_def)
  then show ?thesis
    using value_occurs_once [OF assms(3) assms(1) assms(2)] by (simp only:)
qed

lemma cpu_twice:
  assumes "CHR ''C'' \<notin> set (py_format shortest v)"
  shows "count_occ ''CPU'' (get_ai_solution_prompt shortest ''CPU'' v) = 2"
  using assms
  by (simp add: get_ai_solution_prompt_def count_occ_Cons count_occ_Nil count_occ_skip)


lemma memory_twice:
  assumes "CHR ''M'' \<notin> set (py_format shortest v)"
  shows "count_occ ''Memory'' (get_ai_solution_prompt shortest ''Memory'' v) = 2"
  using assms
  by (simp add: get_ai_solution_prompt_def count_occ_Cons count_occ_Nil count_occ_skip)

lemma network_twice:
  assumes "CHR ''N'' \<notin> set (py_format shortest v)"
  shows "count_occ ''Network'' (get_ai_solution_prompt shortest ''Network'' v) = 2"
  using assms
  by (simp add: get_ai_solution_prompt_def count_occ_Cons count_occ_Nil count_occ_skip)

lemma disk_twice:
  assumes "CHR ''D'' \<notin> set (py_format shortest v)"
  shows "count_occ ''Disk I/O'' (get_ai_solution_prompt shortest ''Disk I/O'' v) = 2"
  using assms
  by (simp add: get_ai_solution_prompt_def count_occ_Cons count_occ_Nil count_occ_skip)

lemma not_in_other:
  "c \<in> set xs \<Longrightarrow> set xs \<inter> set ys = {} \<Longrightarrow> c \<notin> set ys"
  by auto

lemma lead_not_in_head:
  "set ''-0123456789'' \<inter> set (''The '' @ ''CPU'' @ '' usage is '') = {}"
  "set ''-0123456789'' \<inter> set (''The '' @ ''Memory'' @ '' usage is '') = {}"
  "set ''-0123456789'' \<inter> set (''The '' @ ''Network'' @ '' usage is '') = {}"
  "set ''-0123456789'' \<inter> set (''The '' @ ''Disk I/O'' @ '' usage is '') = {}"
  by simp_all

lemma digit_not_in_tail:
  "set ''0123456789'' \<inter>
   set (''%. Provide step-by-step recommendations on how to resolve high '' @ ''CPU'' @ '' usage.'') = {}"
  "set ''0123456789'' \<inter>
   set (''%. Provide step-by-step recommendations on how to resolve high '' @ ''Memory'' @ '' usage.'') = {}"
  "set ''0123456789'' \<inter>
   set (''%. Provide step-by-step recommendations on how to resolve high '' @ ''Network'' @ '' usage.'') = {}"
  "set ''0123456789'' \<inter>
   set (''%. Provide step-by-step recommendations on how to resolve high '' @ ''Disk I/O'' @ '' usage.'') = {}"
  by simp_all


lemma tracked_counts:
  assumes "metric_name \<in> set [''CPU'', ''Memory'', ''Network'', ''Disk I/O'']"
    and "py_format shortest v \<noteq> []"
    and "hd (py_format shortest v) \<in> set ''-0123456789''"
    and "last (py_format shortest v) \<in> set ''0123456789''"
    and "set (py_format shortest v) \<inter> set ''CMND'' = {}"
  shows "count_occ metric_name (get_ai_solution_prompt shortest metric_name v) = 2
         \<and> count_occ (py_format shortest v) (get_ai_solution_prompt shortest metric_name v) = 1"
proof -
  let ?t = "py_format shortest v"
  have caps: "CHR ''C'' \<notin> set ?t" "CHR ''M'' \<notin> set ?t" "CHR ''N'' \<notin> set ?t" "CHR ''D'' \<notin> set ?t"
    using assms(5) by auto
  from assms(1) consider "metric_name = ''CPU''" | "metric_name = ''Memory''"
    | "metric_name = ''Network''" | "metric_name = ''Disk I/O''"
    by (simp only: list.set insert_iff empty_iff) blast
  then show ?thesis
  proof cases
    case 1
    show ?thesis unfolding 1
      using cpu_twice [OF caps(1)]
        value_once_in_prompt [OF not_in_other [OF assms(3) lead_not_in_head(1)]
          not_in_other [OF assms(4) digit_not_in_tail(1)] assms(2)]
      by (rule conjI)
  next
    case 2
    show ?thesis unfolding 2
      using memory_twice [OF caps(2)]
        value_once_in_prompt [OF not_in_other [OF assms(3) lead_not_in_head(2)]
          not_in_other [OF assms(4) digit_not_in_tail(2)] assms(2)]
      by (rule conjI)
  next
    case 3
    show ?thesis unfolding 3
      using network_twice [OF caps(3)]
        value_once_in_prompt [OF not_in_other [OF assms(3) lead_not_in_head(3)]
          not_in_other [OF assms(4) digit_not_in_tail(3)] assms(2)]
      by (rule conjI)
  next
    case 4
    show ?thesis unfolding 4
      using disk_twice [OF caps(4)]
        value_once_in_prompt [OF not_in_other [OF assms(3) lead_not_in_head(4)]
          not_in_other [OF assms(4) digit_not_in_tail(4)] assms(2)]
      by (rule conjI)
  qed
qed

text \<open>
  C6, as stated, fails: the template names the metric twice, so for \<^verbatim>\<open>CPU\<close> and 90
  the name occurs twice in the prompt, not once.
\<close>

theorem name_occurs_twice_counterexample:
  "count_occ ''CPU'' (get_ai_solution_prompt stub_repr ''CPU'' (PyInt 90)) = 2
   \<and> count_occ ''CPU'' (get_ai_solution_prompt stub_repr ''CPU'' (PyInt 90)) \<noteq> 1"
  by (simp add: prompt_cpu_90 count_cpu)

text \<open>
  C6, amended. In every prompt the name stands at two template positions (after
  \<^verbatim>\<open>The \<close> and after \<^verbatim>\<open>resolve high \<close>) and the text of the value at one (before
  the percent sign), so the name occurs at least twice and the value at least once. For
  the four tracked names and a value whose text is that of a number (it starts with a
  digit or a minus sign, ends with a digit and has none of the capitals C, M, N, D) the
  name occurs exactly twice and the value exactly once; so it is for \<^verbatim>\<open>CPU\<close> and 90.
\<close>

theorem prompt_template_positions:
  "occurs_at metric_name 4 (get_ai_solution_prompt shortest metric_name v)
   \<and> occurs_at (py_format shortest v) (14 + length metric_name)
        (get_ai_solution_prompt shortest metric_name v)
   \<and> occurs_at metric_name (77 + length metric_name + length (py_format shortest v))
        (get_ai_solution_prompt shortest metric_name v)
   \<and> 2 \<le> count_occ metric_name (get_ai_solution_prompt shortest metric_name v)
   \<and> 1 \<le> count_occ (py_format shortest v) (get_ai_solution_prompt shortest metric_name v)
   \<and> (metric_name \<in> set [''CPU'', ''Memory'', ''Network'', ''Disk I/O'']
        \<and> py_format shortest v \<noteq> []
        \<and> hd (py_format shortest v) \<in> set ''-0123456789''
        \<and> last (py_format shortest v) \<in> set ''0123456789''
        \<and> set (py_format shortest v) \<inter> set ''CMND'' = {}
      \<longrightarrow> count_occ metric_name (get_ai_solution_prompt shortest metric_name v) = 2
        \<and> count_occ (py_format shortest v) (get_ai_solution_prompt shortest metric_name v) = 1)
   \<and> count_occ ''CPU'' (get_ai_solution_prompt shortest ''CPU'' (PyInt 90)) = 2
   \<and> count_occ (py_format shortest (PyInt 90))
        (get_ai_solution_prompt shortest ''CPU'' (PyInt 90)) = 1"
proof -
  let ?v = "py_format shortest v"
  let ?mid = "''%. Provide step-by-step recommendations on how to resolve high ''"
  let ?p = "get_ai_solution_prompt shortest metric_name v"
  have a0: "occurs_at metric_name (length ''The '')
      (''The '' @ metric_name @ '' usage is '' @ ?v @ ?mid @ metric_name @ '' usage.'')"
    by (rule occurs_at_append)
  have al: "length ''The '' = 4" by simp
  have a: "occurs_at metric_name 4 ?p"
    using a0 unfolding get_ai_solution_prompt_def by (simp only: al)
  have b0: "occurs_at ?v (length ''The '' + length metric_name + length '' usage is '')
      (''The '' @ metric_name @ '' usage is '' @ ?v @ ?mid @ metric_name @ '' usage.'')"
    by (rule occurs_at_append3)
  have bl: "length ''The '' + length metric_name + length '' usage is '' = 14 + length metric_name"
    by simp
  have b: "occurs_at ?v (14 + length metric_name) ?p"
    using b0 unfolding get_ai_solution_prompt_def by (simp only: bl)
  have c0: "occurs_at metric_name
      (length ''The '' + length metric_name + length '' usage is '' + length ?v + length ?mid)
      (''The '' @ metric_name @ '' usage is '' @ ?v @ ?mid @ metric_name @ '' usage.'')"
    by (rule occurs_at_append5)
  have cl: "length ''The '' + length metric_name + length '' usage is '' + length ?v + length ?mid
      = 77 + length metric_name + length ?v"
    by simp
  have c: "occurs_at metric_name (77 + length metric_name + length ?v) ?p"
    using c0 unfolding get_ai_solution_prompt_def by (simp only: cl)
  have d: "2 \<le> count_occ metric_name ?p"
    using a c by (rule two_occurrences) simp
  have e: "1 \<le> count_occ ?v ?p"
    using b by (rule one_occurrence)
  have f: "count_occ ''CPU'' (get_ai_solution_prompt shortest ''CPU'' (PyInt 90)) = 2"
    by (simp only: prompt_cpu_90 count_cpu)
  have g: "count_occ (py_format shortest (PyInt 90))
        (get_ai_solution_prompt shortest ''CPU'' (PyInt 90)) = 1"
    by (simp add: prompt_cpu_90 py_format_def str_int_90 count_90)
  have h: "metric_name \<in> set [''CPU'', ''Memory'', ''Network'', ''Disk I/O'']
        \<and> py_format shortest v \<noteq> []
        \<and> hd (py_format shortest v) \<in> set ''-0123456789''
        \<and> last (py_format shortest v) \<in> set ''0123456789''
        \<and> set (py_format shortest v) \<inter> set ''CMND'' = {}
      \<longrightarrow> count_occ metric_name (get_ai_solution_prompt shortest metric_name v) = 2
        \<and> count_occ (py_format shortest v) (get_ai_solution_prompt shortest metric_name v) = 1"
    using tracked_counts [of metric_name shortest v] by blast
  show ?thesis using a b c d e h f g by blast
qed

theorem prompt_template_positions_witness:
  "count_occ ''Disk I/O'' (get_ai_solution_prompt stub_repr ''Disk I/O'' (PyFloat 100)) = 2
   \<and> count_occ ''100.0'' (get_ai_solution_prompt stub_repr ''Disk I/O'' (PyFloat 100)) = 1
   \<and> occurs_at ''100.0'' 22 (get_ai_solution_prompt stub_repr ''Disk I/O'' (PyFloat 100))"
proof -
  have t: "py_format stub_repr (PyFloat 100) = ''100.0''"
    by (simp add: py_format_def float_str_def str_int_def str_nat.simps digit_def)
  have "length ''Disk I/O'' = 8" by simp
  then show ?thesis
    using prompt_template_positions [of "''Disk I/O''" stub_repr "PyFloat 100"]
    unfolding t by simp
qed

section \<open>The page script\<close>

lemma calls_emit_any:
  "calls (trace (emit (Write a) w)) = calls (trace w)"
  "calls (trace (emit (Warning a) w)) = calls (trace w)"
  "calls (trace (emit (Success a) w)) = calls (trace w)"
  "calls (trace (emit (Sleep d) w)) = calls (trace w)"
  "calls (trace (emit (Title a) w)) = calls (trace w)"
  "calls (trace (emit (Subheader a) w)) = calls (trace w)"
  "calls (trace (emit (TextInput a) w)) = calls (trace w)"
  "calls (trace (emit (Markdown a) w)) = calls (trace w)"
  by (simp_all add: trace_emit calls_append)

lemma send_trace_extends:
  "\<exists>evs. trace (snd (send_request_with_throttling room svc prompt w)) = trace w @ evs"
proof (induction room arbitrary: w)
  case 0
  then show ?case by simp
next
  case (Suc room)
  obtain r s' where step: "svc (svc_state w) [] prompt = (r, s')"
    by (cases "svc (svc_state w) [] prompt")
  show ?case
  proof (cases r)
    case (Inr reply)
    with step show ?thesis by (simp add: trace_emit)
  next
    case (Inl e)
    show ?thesis
    proof (cases "str_in ''RATE_LIMIT_EXCEEDED'' (exn_str e)")
      case False
      with step Inl show ?thesis by (simp add: trace_emit)
    next
      case True
      let ?w' = "emit (Sleep 60)
                 (emit (Print ''Waiting for 1 minute before retrying...'')
                   (emit (Print (''Rate limit exceeded: '' @ exn_str e))
                     (emit (Call [] prompt) (w\<lparr>svc_state := s'\<rparr>))))"
      from Suc.IH [of ?w'] obtain evs where
        "trace (snd (send_request_with_throttling room svc prompt ?w')) = trace ?w' @ evs"
        by blast
      moreover have "send_request_with_throttling (Suc room) svc prompt w =
            send_request_with_throttling room svc prompt ?w'"
        using step Inl True by simp
      ultimately show ?thesis by (simp add: trace_emit)
    qed
  qed
qed

lemma show_solution_trace_extends:
  "\<exists>evs. trace (snd (show_solution heading r)) = trace (snd r) @ evs"
  by (cases r) (simp add: show_solution_def trace_emit split: option.splits sum.splits)

lemma advisory_trace_extends:
  "\<exists>evs. trace (snd (show_solution heading (get_ai_solution room shortest svc name v w))) =
         trace w @ evs"
proof -
  obtain evs where a: "trace (snd (get_ai_solution room shortest svc name v w)) = trace w @ evs"
    unfolding get_ai_solution_def using send_trace_extends by blast
  obtain evs' where "trace (snd (show_solution heading (get_ai_solution room shortest svc name v w)))
      = trace (snd (get_ai_solution room shortest svc name v w)) @ evs'"
    using show_solution_trace_extends by blast
  with a show ?thesis by simp
qed

lemma advisory_calls:
  "\<exists>k. k \<le> room \<and> (0 < k) = (0 < room) \<and>
       calls (trace (snd (show_solution heading (get_ai_solution room shortest svc name v w)))) =
       calls (trace w) @ replicate k ([], get_ai_solution_prompt shortest name v)"
  unfolding calls_show_solution get_ai_solution_def by (rule send_calls)

text \<open>The shape shared by the four metric rows.\<close>

lemma guarded_calls:
  "\<exists>k. k \<le> room \<and> (0 < k) = (0 < room \<and> c) \<and>
     calls (trace (snd (if c then show_solution heading
                                   (get_ai_solution room shortest svc name v (emit (Warning a) w))
                        else (Inr (), emit (Success b) w)))) =
     calls (trace w) @ replicate k ([], get_ai_solution_prompt shortest name v)"
proof (cases c)
  case True
  obtain k where "k \<le> room" "(0 < k) = (0 < room)"
    "calls (trace (snd (show_solution heading
        (get_ai_solution room shortest svc name v (emit (Warning a) w))))) =
     calls (trace (emit (Warning a) w)) @ replicate k ([], get_ai_solution_prompt shortest name v)"
    using advisory_calls by blast
  with True show ?thesis by (intro exI [of _ k]) (simp add: calls_emit_any)
next
  case False
  then show ?thesis by (intro exI [of _ 0]) (simp add: calls_emit_any)
qed

lemma guarded_normal:
  "((if c then show_solution heading
               (get_ai_solution room shortest svc name v (emit (Warning a) w))
     else (Inr (), emit (Success b) w)) = (Inr (), emit (Success b) w)) = (\<not> c)"
proof (cases c)
  case True
  obtain evs where "trace (snd (show_solution heading
        (get_ai_solution room shortest svc name v (emit (Warning a) w)))) =
      trace (emit (Warning a) w) @ evs"
    using advisory_trace_extends by blast
  then have "trace (snd (show_solution heading
        (get_ai_solution room shortest svc name v (emit (Warning a) w)))) \<noteq>
      trace (emit (Success b) w)"
    by (simp add: trace_emit)
  then have "show_solution heading
        (get_ai_solution room shortest svc name v (emit (Warning a) w)) \<noteq>
        (Inr (), emit (Success b) w)"
    by auto
  with True show ?thesis by simp
next
  case False
  then show ?thesis by simp
qed

lemma cpu_section_calls:
  "\<exists>k. k \<le> room \<and> (0 < k) = (0 < room \<and> of_int THRESHOLD < v) \<and>
     calls (trace (snd (cpu_section room shortest svc v w))) =
     calls (trace w) @ replicate k ([], get_ai_solution_prompt shortest ''CPU'' (PyFloat v))"
  using guarded_calls [where w = "emit (Write (''CPU Usage: '' @ fmt_2f v @ ''%'')) w"]
  unfolding cpu_section_def Let_def calls_emit_any .

lemma memory_section_calls:
  "\<exists>k. k \<le> room \<and> (0 < k) = (0 < room \<and> of_int THRESHOLD < v) \<and>
     calls (trace (snd (memory_section room shortest svc v w))) =
     calls (trace w) @ replicate k ([], get_ai_solution_prompt shortest ''Memory'' (PyFloat v))"
  using guarded_calls [where w = "emit (Write (''Memory Usage: '' @ fmt_2f v @ ''%'')) w"]
  unfolding memory_section_def Let_def calls_emit_any .

lemma network_section_calls:
  "\<exists>k. k \<le> room \<and> (0 < k) = (0 < room \<and> of_int THRESHOLD < network_usage nb na) \<and>
     calls (trace (snd (network_section room shortest svc nb na w))) =
     calls (trace w) @
     replicate k ([], get_ai_solution_prompt shortest ''Network'' (PyFloat (network_usage nb na)))"
  using guarded_calls [where w = "emit (Write (''Network Usage: '' @ fmt_2f (network_usage nb na) @ '' MB/s''))
      (emit (Sleep 1) w)"]
  unfolding network_section_def Let_def calls_emit_any .

lemma disk_section_calls:
  "\<exists>k. k \<le> room \<and> (0 < k) = (0 < room \<and> of_int THRESHOLD < disk_io_usage db da) \<and>
     calls (trace (snd (disk_section room shortest svc db da w))) =
     calls (trace w) @
     replicate k ([], get_ai_solution_prompt shortest ''Disk I/O'' (PyFloat (disk_io_usage db da)))"
  using guarded_calls [where w = "emit (Write (''Disk I/O Usage: '' @ fmt_2f (disk_io_usage db da) @ '' MB/s''))
      (emit (Sleep 1) w)"]
  unfolding disk_section_def Let_def calls_emit_any .

lemma appended_calls_change:
  assumes "\<exists>k. k \<le> n \<and> (0 < k) = c \<and> cs' = cs @ replicate k x"
  shows "(cs' \<noteq> cs) = c"
proof -
  from assms obtain k where k: "(0 < k) = c" "cs' = cs @ replicate k x" by blast
  show ?thesis using k by (cases k) auto
qed

lemma cpu_section_normal:
  "(cpu_section room shortest svc v w =
      (Inr (),
       w\<lparr>trace := trace w @ [Write (''CPU Usage: '' @ fmt_2f (v) @ ''%''),
                                  Success ''CPU usage is within normal limits.'']\<rparr>))
   = (\<not> of_int THRESHOLD < v)"
  using guarded_normal [where w = "emit (Write (''CPU Usage: '' @ fmt_2f (v) @ ''%'')) w"
      and c = "of_int THRESHOLD < v" and b = "''CPU usage is within normal limits.''"]
  unfolding cpu_section_def Let_def by (simp add: emit_def)

lemma memory_section_normal:
  "(memory_section room shortest svc v w =
      (Inr (),
       w\<lparr>trace := trace w @ [Write (''Memory Usage: '' @ fmt_2f (v) @ ''%''),
                                  Success ''Memory usage is within normal limits.'']\<rparr>))
   = (\<not> of_int THRESHOLD < v)"
  using guarded_normal [where w = "emit (Write (''Memory Usage: '' @ fmt_2f (v) @ ''%'')) w"
      and c = "of_int THRESHOLD < v" and b = "''Memory usage is within normal limits.''"]
  unfolding memory_section_def Let_def by (simp add: emit_def)

lemma network_section_normal:
  "(network_section room shortest svc nb na w =
      (Inr (),
       w\<lparr>trace := trace w @ Sleep 1 # [Write (''Network Usage: '' @ fmt_2f (network_usage nb na) @ '' MB/s''),
                                  Success ''Network usage is within normal limits.'']\<rparr>))
   = (\<not> of_int THRESHOLD < network_usage nb na)"
  using guarded_normal [where w = "emit (Write (''Network Usage: '' @ fmt_2f (network_usage nb na) @ '' MB/s'')) (emit (Sleep 1) w)"
      and c = "of_int THRESHOLD < network_usage nb na" and b = "''Network usage is within normal limits.''"]
  unfolding network_section_def Let_def by (simp add: emit_def)

lemma disk_section_normal:
  "(disk_section room shortest svc db da w =
      (Inr (),
       w\<lparr>trace := trace w @ Sleep 1 # [Write (''Disk I/O Usage: '' @ fmt_2f (disk_io_usage db da) @ '' MB/s''),
                                  Success ''Disk I/O usage is within normal limits.'']\<rparr>))
   = (\<not> of_int THRESHOLD < disk_io_usage db da)"
  using guarded_normal [where w = "emit (Write (''Disk I/O Usage: '' @ fmt_2f (disk_io_usage db da) @ '' MB/s'')) (emit (Sleep 1) w)"
      and c = "of_int THRESHOLD < disk_io_usage db da" and b = "''Disk I/O usage is within normal limits.''"]
  unfolding disk_section_def Let_def by (simp add: emit_def)


lemma fmt_2f_75: "fmt_2f 75 = ''75.00''"
  by (simp add: fmt_2f_def round_half_even_def Let_def str_nat.simps digit_def)


lemma chat_section_calls:
  "\<exists>k. k \<le> room \<and> (0 < k) = (0 < room \<and> q \<noteq> []) \<and>
     calls (trace (snd (chat_section room svc q w))) = calls (trace w) @ replicate k ([], q)"
proof (cases "q = []")
  case True
  then show ?thesis by (intro exI [of _ 0]) (simp add: chat_section_def)
next
  case False
  then show ?thesis
    using send_calls [of room svc q w] by (simp add: chat_section_def calls_show_solution)
qed

lemma chat_section_untouched:
  "(chat_section room svc q w = (Inr (), w)) = (q = [])"
proof (cases "q = []")
  case True
  then show ?thesis by (simp add: chat_section_def)
next
  case False
  have "show_solution ''### AI's Answer:'' (send_request_with_throttling room svc q w) \<noteq>
        (Inr (), w)"
  proof (cases room)
    case 0
    then show ?thesis by (simp add: show_solution_def)
  next
    case (Suc n)
    obtain k where "(0 < k) = (0 < room \<and> q \<noteq> [])"
      "calls (trace (snd (chat_section room svc q w))) = calls (trace w) @ replicate k ([], q)"
      using chat_section_calls by blast
    with Suc False have "calls (trace (snd (chat_section room svc q w))) \<noteq> calls (trace w)"
      by (cases k) auto
    then show ?thesis using False by (auto simp: chat_section_def)
  qed
  with False show ?thesis by (simp add: chat_section_def)
qed

lemma metric_rows_ignore_question:
  "metric_rows room shortest svc (m\<lparr>user_question := q\<rparr>) w = metric_rows room shortest svc m w"
  by (simp add: metric_rows_def)

text \<open>
  C7. The one threshold is 75. For each of the four metrics the advisory is asked for
  (the service is called) exactly when the value is strictly greater than 75, and the
  row ends with the success banner and nothing else exactly when it is not. A CPU
  reading of exactly 75 reports normal; one of 75.01 asks for the advisory.
\<close>

theorem threshold_is_strict:
  "THRESHOLD = 75
   \<and> (calls (trace (snd (cpu_section (Suc room) shortest svc v w))) \<noteq> calls (trace w)) = (75 < v)
   \<and> (cpu_section room shortest svc v w =
        (Inr (),
         w\<lparr>trace := trace w @ [Write (''CPU Usage: '' @ fmt_2f v @ ''%''),
                                Success ''CPU usage is within normal limits.'']\<rparr>)) = (\<not> 75 < v)
   \<and> (calls (trace (snd (memory_section (Suc room) shortest svc v w))) \<noteq> calls (trace w)) = (75 < v)
   \<and> (memory_section room shortest svc v w =
        (Inr (),
         w\<lparr>trace := trace w @ [Write (''Memory Usage: '' @ fmt_2f v @ ''%''),
                                Success ''Memory usage is within normal limits.'']\<rparr>)) = (\<not> 75 < v)
   \<and> (calls (trace (snd (network_section (Suc room) shortest svc nb na w))) \<noteq> calls (trace w))
       = (75 < network_usage nb na)
   \<and> (network_section room shortest svc nb na w =
        (Inr (),
         w\<lparr>trace := trace w @ [Sleep 1,
                                Write (''Network Usage: '' @ fmt_2f (network_usage nb na) @ '' MB/s''),
                                Success ''Network usage is within normal limits.'']\<rparr>))
       = (\<not> 75 < network_usage nb na)
   \<and> (calls (trace (snd (disk_section (Suc room) shortest svc db da w))) \<noteq> calls (trace w))
       = (75 < disk_io_usage db da)
   \<and> (disk_section room shortest svc db da w =
        (Inr (),
         w\<lparr>trace := trace w @ [Sleep 1,
                                Write (''Disk I/O Usage: '' @ fmt_2f (disk_io_usage db da) @ '' MB/s''),
                                Success ''Disk I/O usage is within normal limits.'']\<rparr>))
       = (\<not> 75 < disk_io_usage db da)
   \<and> cpu_section room shortest svc 75 w =
        (Inr (),
         w\<lparr>trace := trace w @ [Write ''CPU Usage: 75.00%'',
                                Success ''CPU usage is within normal limits.'']\<rparr>)
   \<and> calls (trace (snd (cpu_section (Suc room) shortest svc (7501 / 100) w))) \<noteq> calls (trace w)"
proof -
  have t: "of_int THRESHOLD = (75 :: rat)" by (simp add: THRESHOLD_def)
  have c1: "(calls (trace (snd (cpu_section (Suc room) shortest svc v w))) \<noteq> calls (trace w)) = (75 < v)"
    for v
    using appended_calls_change [OF cpu_section_calls [of "Suc room" v shortest svc w, simplified]]
    by (simp add: t)
  have c2: "(calls (trace (snd (memory_section (Suc room) shortest svc v w))) \<noteq> calls (trace w)) = (75 < v)"
    using appended_calls_change [OF memory_section_calls [of "Suc room" v shortest svc w, simplified]]
    by (simp add: t)
  have c3: "(calls (trace (snd (network_section (Suc room) shortest svc nb na w))) \<noteq> calls (trace w))
       = (75 < network_usage nb na)"
    using appended_calls_change [OF network_section_calls [of "Suc room" nb na shortest svc w, simplified]]
    by (simp add: t)
  have c4: "(calls (trace (snd (disk_section (Suc room) shortest svc db da w))) \<noteq> calls (trace w))
       = (75 < disk_io_usage db da)"
    using appended_calls_change [OF disk_section_calls [of "Suc room" db da shortest svc w, simplified]]
    by (simp add: t)
  have n1: "(cpu_section room shortest svc v w =
        (Inr (),
         w\<lparr>trace := trace w @ [Write (''CPU Usage: '' @ fmt_2f v @ ''%''),
                                Success ''CPU usage is within normal limits.'']\<rparr>)) = (\<not> 75 < v)"
    for v
    using cpu_section_normal [of room shortest svc v w] by (simp only: t)
  have n2: "(memory_section room shortest svc v w =
        (Inr (),
         w\<lparr>trace := trace w @ [Write (''Memory Usage: '' @ fmt_2f v @ ''%''),
                                Success ''Memory usage is within normal limits.'']\<rparr>)) = (\<not> 75 < v)"
    using memory_section_normal [of room shortest svc v w] by (simp only: t)
  have n3: "(network_section room shortest svc nb na w =
        (Inr (),
         w\<lparr>trace := trace w @ [Sleep 1,
                                Write (''Network Usage: '' @ fmt_2f (network_usage nb na) @ '' MB/s''),
                                Success ''Network usage is within normal limits.'']\<rparr>))
       = (\<not> 75 < network_usage nb na)"
    using network_section_normal [of room shortest svc nb na w] by (simp only: t)
  have n4: "(disk_section room shortest svc db da w =
        (Inr (),
         w\<lparr>trace := trace w @ [Sleep 1,
                                Write (''Disk I/O Usage: '' @ fmt_2f (disk_io_usage db da) @ '' MB/s''),
                                Success ''Disk I/O usage is within normal limits.'']\<rparr>))
       = (\<not> 75 < disk_io_usage db da)"
    using disk_section_normal [of room shortest svc db da w] by (simp only: t)
  have i1: "cpu_section room shortest svc 75 w =
        (Inr (),
         w\<lparr>trace := trace w @ [Write ''CPU Usage: 75.00%'',
                                Success ''CPU usage is within normal limits.'']\<rparr>)"
    using n1 [of 75] by (simp add: fmt_2f_75)
  have i2: "calls (trace (snd (cpu_section (Suc room) shortest svc (7501 / 100) w))) \<noteq> calls (trace w)"
    using c1 [of "7501 / 100"] by simp
  show ?thesis
    using c1 c2 c3 c4 n1 n2 n3 n4 i1 i2 by (simp only: THRESHOLD_def simp_thms)
qed


lemma network_section_trace:
  "\<exists>evs. trace (snd (network_section room shortest svc nb na w)) =
     trace w @ [Sleep 1, Write (''Network Usage: '' @ fmt_2f (network_usage nb na) @ '' MB/s'')] @ evs"
proof (cases "of_int THRESHOLD < network_usage nb na")
  case True
  obtain evs where "trace (snd (show_solution ''### AI-generated Solution for Network Usage:''
      (get_ai_solution room shortest svc ''Network'' (PyFloat (network_usage nb na))
        (emit (Warning (''Network usage is high! ('' @ fmt_2f (network_usage nb na) @ '' MB/s)''))
          (emit (Write (''Network Usage: '' @ fmt_2f (network_usage nb na) @ '' MB/s''))
            (emit (Sleep 1) w)))))) =
     trace (emit (Warning (''Network usage is high! ('' @ fmt_2f (network_usage nb na) @ '' MB/s)''))
          (emit (Write (''Network Usage: '' @ fmt_2f (network_usage nb na) @ '' MB/s''))
            (emit (Sleep 1) w))) @ evs"
    using advisory_trace_extends by blast
  with True show ?thesis by (simp add: network_section_def Let_def trace_emit)
next
  case False
  then show ?thesis by (simp add: network_section_def Let_def trace_emit)
qed

lemma disk_section_trace:
  "\<exists>evs. trace (snd (disk_section room shortest svc db da w)) =
     trace w @ [Sleep 1, Write (''Disk I/O Usage: '' @ fmt_2f (disk_io_usage db da) @ '' MB/s'')] @ evs"
proof (cases "of_int THRESHOLD < disk_io_usage db da")
  case True
  obtain evs where "trace (snd (show_solution ''### AI-generated Solution for Disk I/O Usage:''
      (get_ai_solution room shortest svc ''Disk I/O'' (PyFloat (disk_io_usage db da))
        (emit (Warning (''Disk I/O usage is high! ('' @ fmt_2f (disk_io_usage db da) @ '' MB/s)''))
          (emit (Write (''Disk I/O Usage: '' @ fmt_2f (disk_io_usage db da) @ '' MB/s''))
            (emit (Sleep 1) w)))))) =
     trace (emit (Warning (''Disk I/O usage is high! ('' @ fmt_2f (disk_io_usage db da) @ '' MB/s)''))
          (emit (Write (''Disk I/O Usage: '' @ fmt_2f (disk_io_usage db da) @ '' MB/s''))
            (emit (Sleep 1) w))) @ evs"
    using advisory_trace_extends by blast
  with True show ?thesis by (simp add: disk_section_def Let_def trace_emit)
next
  case False
  then show ?thesis by (simp add: disk_section_def Let_def trace_emit)
qed

lemma fmt_2f_1: "fmt_2f 1 = ''1.00''"
  by (simp add: fmt_2f_def round_half_even_def Let_def str_nat.simps digit_def)

text \<open>
  C8. The network figure is the bytes received and sent in the second snapshot, minus
  those of the first, over 1,048,576, and the disk figure the same on bytes read and
  written; the figure is 1 exactly when the difference is 1,048,576 bytes, as it is from
  counters at 0 to counters that total 1,048,576, and is shown as \<^verbatim>\<open>1.00\<close>. Each row
  sleeps one time unit for its second snapshot and then writes the figure.
\<close>

theorem usage_is_delta_over_mebibyte:
  "network_usage nb na =
     of_int ((bytes_recv na + bytes_sent na) - (bytes_recv nb + bytes_sent nb)) / 1048576
   \<and> disk_io_usage db da =
     of_int ((read_bytes da + write_bytes da) - (read_bytes db + write_bytes db)) / 1048576
   \<and> (network_usage nb na = 1) =
     ((bytes_recv na + bytes_sent na) - (bytes_recv nb + bytes_sent nb) = 1048576)
   \<and> (disk_io_usage db da = 1) =
     ((read_bytes da + write_bytes da) - (read_bytes db + write_bytes db) = 1048576)
   \<and> network_usage \<lparr>bytes_sent = 0, bytes_recv = 0\<rparr> \<lparr>bytes_sent = 48576, bytes_recv = 1000000\<rparr> = 1
   \<and> disk_io_usage \<lparr>read_bytes = 0, write_bytes = 0\<rparr> \<lparr>read_bytes = 1048576, write_bytes = 0\<rparr> = 1
   \<and> fmt_2f 1 = ''1.00''
   \<and> (\<exists>evs. trace (snd (network_section room shortest svc nb na w)) =
         trace w @ [Sleep 1, Write (''Network Usage: '' @ fmt_2f (network_usage nb na) @ '' MB/s'')]
         @ evs)
   \<and> (\<exists>evs. trace (snd (disk_section room shortest svc db da w)) =
         trace w @ [Sleep 1, Write (''Disk I/O Usage: '' @ fmt_2f (disk_io_usage db da) @ '' MB/s'')]
         @ evs)"
proof -
  have a: "network_usage nb na =
     of_int ((bytes_recv na + bytes_sent na) - (bytes_recv nb + bytes_sent nb)) / 1048576"
    by (simp add: network_usage_def)
  have b: "disk_io_usage db da =
     of_int ((read_bytes da + write_bytes da) - (read_bytes db + write_bytes db)) / 1048576"
    by (simp add: disk_io_usage_def)
  have c: "(network_usage nb na = 1) =
     ((bytes_recv na + bytes_sent na) - (bytes_recv nb + bytes_sent nb) = 1048576)"
  proof -
    have "(of_int ((bytes_recv na + bytes_sent na) - (bytes_recv nb + bytes_sent nb)) / 1048576
            = (1 :: rat)) =
          (of_int ((bytes_recv na + bytes_sent na) - (bytes_recv nb + bytes_sent nb))
            = (of_int 1048576 :: rat))"
      by simp
    then show ?thesis unfolding a by (simp only: of_int_eq_iff)
  qed
  have d: "(disk_io_usage db da = 1) =
     ((read_bytes da + write_bytes da) - (read_bytes db + write_bytes db) = 1048576)"
  proof -
    have "(of_int ((read_bytes da + write_bytes da) - (read_bytes db + write_bytes db)) / 1048576
            = (1 :: rat)) =
          (of_int ((read_bytes da + write_bytes da) - (read_bytes db + write_bytes db))
            = (of_int 1048576 :: rat))"
      by simp
    then show ?thesis unfolding b by (simp only: of_int_eq_iff)
  qed
  have e: "network_usage \<lparr>bytes_sent = 0, bytes_recv = 0\<rparr>
             \<lparr>bytes_sent = 48576, bytes_recv = 1000000\<rparr> = 1"
    by (simp add: network_usage_def)
  have f: "disk_io_usage \<lparr>read_bytes = 0, write_bytes = 0\<rparr>
             \<lparr>read_bytes = 1048576, write_bytes = 0\<rparr> = 1"
    by (simp add: disk_io_usage_def)
  show ?thesis
    using a b c d e f fmt_2f_1 network_section_trace [of room shortest svc nb na w]
      disk_section_trace [of room shortest svc db da w]
    by blast
qed

text \<open>
  C9. With an empty text box the chat part does nothing: no call to the service, no
  answer heading, no answer. It leaves the page as it found it exactly when the text
  is empty, and it calls the service (with the text as the prompt) exactly when the
  text is not empty. A whole render with an empty text box is the metric rows
  followed by the chat box's rule, heading and input field and by the style sheet.
\<close>

theorem empty_question_no_dispatch:
  "chat_section room svc [] w = (Inr (), w)
   \<and> (chat_section room svc q w = (Inr (), w)) = (q = [])
   \<and> (calls (trace (snd (chat_section (Suc room) svc q w))) \<noteq> calls (trace w)) = (q \<noteq> [])
   \<and> (\<exists>k. k \<le> room \<and> (0 < k) = (0 < room \<and> q \<noteq> []) \<and>
          calls (trace (snd (chat_section room svc q w))) = calls (trace w) @ replicate k ([], q))
   \<and> render room shortest svc (m\<lparr>user_question := []\<rparr>) w =
       and_then (metric_rows room shortest svc m w)
         (\<lambda>w'. (Inr (),
                w'\<lparr>trace := trace w' @ [Write ''---'', Subheader ''Ask the AI a question:'',
                                        TextInput ''Type your question here:'',
                                        Markdown fade_in_css]\<rparr>))"
proof -
  have a: "chat_section room svc [] w = (Inr (), w)"
    by (simp add: chat_section_def)
  have b: "(calls (trace (snd (chat_section (Suc room) svc q w))) \<noteq> calls (trace w)) = (q \<noteq> [])"
    using appended_calls_change [OF chat_section_calls [of "Suc room" q svc w, simplified]] .
  have c: "render room shortest svc (m\<lparr>user_question := []\<rparr>) w =
       and_then (metric_rows room shortest svc m w)
         (\<lambda>w'. (Inr (),
                w'\<lparr>trace := trace w' @ [Write ''---'', Subheader ''Ask the AI a question:'',
                                        TextInput ''Type your question here:'',
                                        Markdown fade_in_css]\<rparr>))"
    by (simp add: render_def metric_rows_ignore_question chat_section_def and_then_def emit_def)
  show ?thesis
    using a b c chat_section_untouched [of room svc q w] chat_section_calls [of room q svc w]
    by blast
qed

text \<open>
  C10. Every call the network row makes carries the prompt of the shared template
  with the name \<^verbatim>\<open>Network\<close> and the MB/s figure followed by a percent sign, and
  every call of the disk row the same with \<^verbatim>\<open>Disk I/O\<close>; the rows call exactly when
  their figure is above 75. A network figure of 100 MB/s is put to the service as
  \<^verbatim>\<open>100.0%\<close>.
\<close>

theorem throughput_prompt_has_percent:
  "(\<exists>k. k \<le> room \<and> (0 < k) = (0 < room \<and> 75 < network_usage nb na) \<and>
        calls (trace (snd (network_section room shortest svc nb na w))) =
        calls (trace w) @
        replicate k ([], ''The Network usage is '' @ float_str shortest (network_usage nb na) @
          ''%. Provide step-by-step recommendations on how to resolve high Network usage.''))
   \<and> (\<exists>k. k \<le> room \<and> (0 < k) = (0 < room \<and> 75 < disk_io_usage db da) \<and>
        calls (trace (snd (disk_section room shortest svc db da w))) =
        calls (trace w) @
        replicate k ([], ''The Disk I/O usage is '' @ float_str shortest (disk_io_usage db da) @
          ''%. Provide step-by-step recommendations on how to resolve high Disk I/O usage.''))
   \<and> get_ai_solution_prompt shortest ''Network''
        (PyFloat (network_usage \<lparr>bytes_sent = 0, bytes_recv = 0\<rparr>
                                 \<lparr>bytes_sent = 0, bytes_recv = 104857600\<rparr>)) =
      ''The Network usage is 100.0%. Provide step-by-step recommendations on how to resolve high Network usage.''"
proof -
  have t: "of_int THRESHOLD = (75 :: rat)" by (simp add: THRESHOLD_def)
  have pn: "get_ai_solution_prompt shortest ''Network'' (PyFloat x) =
      ''The Network usage is '' @ float_str shortest x @
      ''%. Provide step-by-step recommendations on how to resolve high Network usage.''" for x
    by (simp add: get_ai_solution_prompt_def py_format_def)
  have pd: "get_ai_solution_prompt shortest ''Disk I/O'' (PyFloat x) =
      ''The Disk I/O usage is '' @ float_str shortest x @
      ''%. Provide step-by-step recommendations on how to resolve high Disk I/O usage.''" for x
    by (simp add: get_ai_solution_prompt_def py_format_def)
  have u: "network_usage \<lparr>bytes_sent = 0, bytes_recv = 0\<rparr>
             \<lparr>bytes_sent = 0, bytes_recv = 104857600\<rparr> = 100"
    by (simp add: network_usage_def)
  have s100: "float_str shortest 100 = ''100.0''"
    by (simp add: float_str_def str_int_def str_nat.simps digit_def)
  have a: "\<exists>k. k \<le> room \<and> (0 < k) = (0 < room \<and> 75 < network_usage nb na) \<and>
        calls (trace (snd (network_section room shortest svc nb na w))) =
        calls (trace w) @
        replicate k ([], ''The Network usage is '' @ float_str shortest (network_usage nb na) @
          ''%. Provide step-by-step recommendations on how to resolve high Network usage.'')"
    using network_section_calls [of room nb na shortest svc w] unfolding t pn .
  have b: "\<exists>k. k \<le> room \<and> (0 < k) = (0 < room \<and> 75 < disk_io_usage db da) \<and>
        calls (trace (snd (disk_section room shortest svc db da w))) =
        calls (trace w) @
        replicate k ([], ''The Disk I/O usage is '' @ float_str shortest (disk_io_usage db da) @
          ''%. Provide step-by-step recommendations on how to resolve high Disk I/O usage.'')"
    using disk_section_calls [of room db da shortest svc w] unfolding t pd .
  have c: "get_ai_solution_prompt shortest ''Network''
        (PyFloat (network_usage \<lparr>bytes_sent = 0, bytes_recv = 0\<rparr>
                                 \<lparr>bytes_sent = 0, bytes_recv = 104857600\<rparr>)) =
      ''The Network usage is 100.0%. Provide step-by-step recommendations on how to resolve high Network usage.''"
    unfolding u pn s100 by simp
  show ?thesis using a b c by blast
qed

end
